theory Spec2Isabelle
  imports Complex_Main "HOL-Library.Multiset"
begin

section \<open>Python values and exceptions\<close>

text \<open>
  The exceptions that the code of \<^verbatim>\<open>nutsml/network.py\<close> raises itself
  (\<^verbatim>\<open>NotImplementedError\<close> with its message), the ones Python raises for the
  tuple and list operations the code performs (\<^verbatim>\<open>IndexError\<close>,
  \<^verbatim>\<open>TypeError\<close>, \<^verbatim>\<open>KeyError\<close>), \<^verbatim>\<open>ValueError\<close> with its message, and
  whatever an external framework call raises.
\<close>

datatype error =
    NotImplementedError string
  | IndexError
  | TypeError
  | KeyError string
  | ValueError string
  | FrameworkError string

text \<open>
  A method call returns its outcome (the raised exception or the returned value)
  together with the state it leaves behind: the object \<^verbatim>\<open>self\<close> and the state
  \<open>'x\<close> of everything outside this layer (the framework's model, the file system,
  the standard output). An assignment made before a \<^verbatim>\<open>raise\<close> stays.
\<close>

type_synonym ('r, 'n, 'x) outcome = "(error + 'r) \<times> 'n \<times> 'x"

text \<open>
  A score is a Python float. Only its truth value and the comparisons \<^verbatim>\<open><\<close> and
  \<^verbatim>\<open>>\<close> are used, so a score is an ordered number or NaN: NaN is true as a
  condition and every comparison with it is false; zero is false as a condition.
\<close>

datatype 'a score = Num 'a | NaN

fun truthy :: "'a::zero score \<Rightarrow> bool" where
  "truthy (Num v) = (v \<noteq> 0)"
| "truthy NaN = True"

fun py_lt :: "'a::linorder score \<Rightarrow> 'a score \<Rightarrow> bool" where
  "py_lt (Num a) (Num b) = (a < b)"
| "py_lt _ _ = False"

fun py_gt :: "'a::linorder score \<Rightarrow> 'a score \<Rightarrow> bool" where
  "py_gt (Num a) (Num b) = (a > b)"
| "py_gt _ _ = False"

section \<open>The base class \<^verbatim>\<open>Network\<close>\<close>

text \<open>
  The two attributes set by \<^verbatim>\<open>Network.__init__\<close>. Subclasses extend the record
  with their own attributes.
\<close>

record 'a network =
  filepath :: string
  best_score :: "'a score option"

definition Network_init :: "string \<Rightarrow> 'a network" where
  "Network_init weightspath = \<lparr>filepath = weightspath, best_score = None\<rparr>"

definition Network_train ::
  "('a, 'b) network_scheme \<Rightarrow> 'x \<Rightarrow> ('r, ('a, 'b) network_scheme, 'x) outcome" where
  "Network_train self x = (Inl (NotImplementedError ''Implement train()!''), self, x)"

definition Network_validate ::
  "('a, 'b) network_scheme \<Rightarrow> 'x \<Rightarrow> ('r, ('a, 'b) network_scheme, 'x) outcome" where
  "Network_validate self x = (Inl (NotImplementedError ''Implement validate()!''), self, x)"

definition Network_predict ::
  "('a, 'b) network_scheme \<Rightarrow> bool \<Rightarrow> 'x \<Rightarrow> ('r, ('a, 'b) network_scheme, 'x) outcome" where
  "Network_predict self flatten x = (Inl (NotImplementedError ''Implement predict()!''), self, x)"

definition Network_evaluate ::
  "('a, 'b) network_scheme \<Rightarrow> 'm list \<Rightarrow> int option \<Rightarrow> int \<Rightarrow> 'x \<Rightarrow>
   ('r, ('a, 'b) network_scheme, 'x) outcome" where
  "Network_evaluate self metrics predcol targetcol x =
     (Inl (NotImplementedError ''Implement evaluate()!''), self, x)"

definition Network_save_weights ::
  "('a, 'b) network_scheme \<Rightarrow> 'x \<Rightarrow> (unit, ('a, 'b) network_scheme, 'x) outcome" where
  "Network_save_weights self x =
     (Inl (NotImplementedError ''Implement save_weights()!''), self, x)"

definition Network_load_weights ::
  "('a, 'b) network_scheme \<Rightarrow> 'x \<Rightarrow> (unit, ('a, 'b) network_scheme, 'x) outcome" where
  "Network_load_weights self x =
     (Inl (NotImplementedError ''Implement load_weights()!''), self, x)"

definition Network_print_layers ::
  "('a, 'b) network_scheme \<Rightarrow> 'x \<Rightarrow> (unit, ('a, 'b) network_scheme, 'x) outcome" where
  "Network_print_layers self x =
     (Inl (NotImplementedError ''Implement print_layers()!''), self, x)"

text \<open>
  The guard of \<^verbatim>\<open>save_best\<close>:
  \<^verbatim>\<open>not self.best_score or (isloss is True and score < self.best_score)
     or (isloss is False and score > self.best_score)\<close>.
  \<^verbatim>\<open>not self.best_score\<close> holds for \<^verbatim>\<open>None\<close> and for a zero score; the
  comparisons are reached only when it does not hold.
\<close>

definition accepts :: "'a::{linorder,zero} score option \<Rightarrow> 'a score \<Rightarrow> bool \<Rightarrow> bool" where
  "accepts best score isloss =
     (case best of
        None \<Rightarrow> True
      | Some b \<Rightarrow> \<not> truthy b \<or> (isloss \<and> py_lt score b) \<or> (\<not> isloss \<and> py_gt score b))"

text \<open>
  \<^verbatim>\<open>save_best\<close> calls \<^verbatim>\<open>self.save_weights()\<close>, the method of the object's own
  class: it is the first argument here. The assignment to \<^verbatim>\<open>best_score\<close> comes
  before the call.
\<close>

definition save_best ::
  "(('a::{linorder,zero}, 'b) network_scheme \<Rightarrow> 'x \<Rightarrow> (unit, ('a, 'b) network_scheme, 'x) outcome) \<Rightarrow>
   ('a, 'b) network_scheme \<Rightarrow> 'a score \<Rightarrow> bool \<Rightarrow> 'x \<Rightarrow>
   (unit, ('a, 'b) network_scheme, 'x) outcome" where
  "save_best save_weights self score isloss x =
     (if accepts (best_score self) score isloss
      then save_weights (self\<lparr>best_score := Some score\<rparr>) x
      else (Inr (), self, x))"

text \<open>
  A sequence of \<^verbatim>\<open>save_best\<close> calls on one object with one \<^verbatim>\<open>isloss\<close> flag,
  the caller going on after an exception.
\<close>

fun save_best_all ::
  "(('a::{linorder,zero}, 'b) network_scheme \<Rightarrow> 'x \<Rightarrow> (unit, ('a, 'b) network_scheme, 'x) outcome) \<Rightarrow>
   bool \<Rightarrow> 'a score list \<Rightarrow> ('a, 'b) network_scheme \<times> 'x \<Rightarrow> ('a, 'b) network_scheme \<times> 'x" where
  "save_best_all save_weights isloss [] s = s"
| "save_best_all save_weights isloss (score # scores) s =
     save_best_all save_weights isloss scores
       (snd (save_best save_weights (fst s) score isloss (snd s)))"

section \<open>Batches and Python sequences\<close>

text \<open>
  A batch is a tuple of arrays. An array, a tuple and a list are all sequences that can
  be indexed and iterated; a scalar can be neither.
\<close>

datatype 'v pyval = Scalar 'v | Seq "'v pyval list"

text \<open>\<^verbatim>\<open>xs[i]\<close>: a negative index counts from the end, an index out of range raises.\<close>

definition py_index :: "'a list \<Rightarrow> int \<Rightarrow> error + 'a" where
  "py_index xs i =
     (if 0 \<le> i \<and> i < int (length xs) then Inr (xs ! nat i)
      else if i < 0 \<and> - int (length xs) \<le> i then Inr (xs ! nat (int (length xs) + i))
      else Inl IndexError)"

text \<open>\<^verbatim>\<open>xs[:k]\<close>: a negative bound counts from the end, and the bound is clipped.\<close>

definition py_slice_to :: "'a list \<Rightarrow> int \<Rightarrow> 'a list" where
  "py_slice_to xs k =
     (let n = int (length xs); j = (if k < 0 then max 0 (n + k) else k)
      in take (nat j) xs)"

text \<open>Iterating a value (\<^verbatim>\<open>for e in v\<close>, \<^verbatim>\<open>list.extend(v)\<close>).\<close>

fun py_iter :: "'v pyval \<Rightarrow> error + 'v pyval list" where
  "py_iter (Seq xs) = Inr xs"
| "py_iter (Scalar v) = Inl TypeError"

text \<open>Indexing a value (\<^verbatim>\<open>v[i]\<close>).\<close>

fun py_getitem :: "'v pyval \<Rightarrow> int \<Rightarrow> error + 'v pyval" where
  "py_getitem (Seq xs) i = py_index xs i"
| "py_getitem (Scalar v) i = Inl TypeError"

text \<open>
  A generator run to its end: the values it yielded and the exception that ended it,
  if one did, with the state of the framework's model afterwards.
\<close>

type_synonym ('r, 'x) yielded = "('r list \<times> error option) \<times> 'x"

definition yield_first :: "'r list \<Rightarrow> ('r, 'x) yielded \<Rightarrow> ('r, 'x) yielded" where
  "yield_first rs g = (case g of ((ys, e), x) \<Rightarrow> ((rs @ ys, e), x))"

section \<open>The pipeline adapters\<close>

text \<open>
  \<^verbatim>\<open>TrainValNut\<close>: \<^verbatim>\<open>for batch in batches: yield func(*batch, **kwargs)\<close>.
  The training or validation function belongs to the framework: it may change the
  framework's model (the state \<open>'x\<close>) and it may raise.
\<close>

fun TrainValNut ::
  "('v pyval list \<Rightarrow> 'k \<Rightarrow> 'x \<Rightarrow> (error + 'r) \<times> 'x) \<Rightarrow> 'k \<Rightarrow>
   'v pyval list list \<Rightarrow> 'x \<Rightarrow> ('r, 'x) yielded" where
  "TrainValNut func kwargs [] x = (([], None), x)"
| "TrainValNut func kwargs (batch # batches) x =
     (case func batch kwargs x of
        (Inl e, x') \<Rightarrow> (([], Some e), x')
      | (Inr r, x') \<Rightarrow> yield_first [r] (TrainValNut func kwargs batches x'))"

text \<open>
  \<^verbatim>\<open>PredictNut\<close>: with \<^verbatim>\<open>flatten\<close> the predictions of a batch are yielded one by
  one, otherwise the batch of predictions is yielded whole.
\<close>

fun PredictNut ::
  "('v pyval list \<Rightarrow> 'x \<Rightarrow> (error + 'v pyval) \<times> 'x) \<Rightarrow> bool \<Rightarrow>
   'v pyval list list \<Rightarrow> 'x \<Rightarrow> ('v pyval, 'x) yielded" where
  "PredictNut func flatten [] x = (([], None), x)"
| "PredictNut func flatten (batch # batches) x =
     (case func batch x of
        (Inl e, x') \<Rightarrow> (([], Some e), x')
      | (Inr pred_batch, x') \<Rightarrow>
          (if flatten
           then (case py_iter pred_batch of
                   Inl e \<Rightarrow> (([], Some e), x')
                 | Inr predictions \<Rightarrow> yield_first predictions (PredictNut func flatten batches x'))
           else yield_first [pred_batch] (PredictNut func flatten batches x')))"

subsection \<open>\<^verbatim>\<open>EvalNut\<close>\<close>

text \<open>
  The closure \<^verbatim>\<open>accumulate\<close> of \<^verbatim>\<open>EvalNut\<close>: it extends the list
  \<^verbatim>\<open>targets\<close> of the enclosing call, which is passed in and returned here, and
  returns the batch without its target column.
\<close>

definition accumulate ::
  "int \<Rightarrow> 'v pyval list \<Rightarrow> 'v pyval list \<Rightarrow> error + ('v pyval list \<times> 'v pyval list)" where
  "accumulate targetcol batch targets =
     (let p_batch = py_slice_to batch targetcol
      in case py_index batch targetcol of
           Inl e \<Rightarrow> Inl e
         | Inr target \<Rightarrow>
             (case py_iter target of
                Inl e \<Rightarrow> Inl e
              | Inr rows \<Rightarrow> Inr (p_batch, targets @ rows)))"

text \<open>
  The functions of nuts-flow that the pipeline of \<^verbatim>\<open>EvalNut\<close> uses:
  \<^verbatim>\<open>Get(predcol)\<close> returns its input for \<^verbatim>\<open>None\<close> and the column
  \<^verbatim>\<open>predcol\<close> of it otherwise; \<^verbatim>\<open>Flatten()\<close> yields the elements of a sequence
  and passes on what is not one.
\<close>

fun Get :: "int option \<Rightarrow> 'v pyval \<Rightarrow> error + 'v pyval" where
  "Get None v = Inr v"
| "Get (Some start) v = py_getitem v start"

fun Flatten :: "'v pyval \<Rightarrow> 'v pyval list" where
  "Flatten (Seq xs) = xs"
| "Flatten (Scalar v) = [Scalar v]"

text \<open>A function applied to the elements of a list in order, up to the first exception.\<close>

fun map_err :: "('a \<Rightarrow> error + 'b) \<Rightarrow> 'a list \<Rightarrow> error + 'b list" where
  "map_err f [] = Inr []"
| "map_err f (a # as) =
     (case f a of
        Inl e \<Rightarrow> Inl e
      | Inr b \<Rightarrow> (case map_err f as of Inl e \<Rightarrow> Inl e | Inr bs \<Rightarrow> Inr (b # bs)))"

text \<open>
  The pipeline
  \<^verbatim>\<open>batches >> Map(accumulate) >> network.predict(flatten=False) >> Get(predcol) >> Flatten() >> Collect()\<close>
  once \<^verbatim>\<open>network.predict(flatten=False)\<close> has returned the nut \<open>nut\<close>.
  It is lazy: each batch goes through \<^verbatim>\<open>accumulate\<close>, the prediction nut,
  \<^verbatim>\<open>Get\<close> and \<^verbatim>\<open>Flatten\<close> before the next batch is read. The result is the
  final list \<^verbatim>\<open>targets\<close> and the collected predictions.
\<close>

fun collect_preds ::
  "('v pyval list list \<Rightarrow> 'x \<Rightarrow> ('v pyval, 'x) yielded) \<Rightarrow> int option \<Rightarrow> int \<Rightarrow>
   'v pyval list list \<Rightarrow> 'v pyval list \<Rightarrow> 'x \<Rightarrow>
   (error + ('v pyval list \<times> 'v pyval list)) \<times> 'x" where
  "collect_preds nut predcol targetcol [] targets x = (Inr (targets, []), x)"
| "collect_preds nut predcol targetcol (batch # batches) targets x =
     (case accumulate targetcol batch targets of
        Inl e \<Rightarrow> (Inl e, x)
      | Inr (p_batch, targets') \<Rightarrow>
          (case nut [p_batch] x of
             ((outs, raised), x') \<Rightarrow>
               (case map_err (Get predcol) outs of
                  Inl e \<Rightarrow> (Inl e, x')
                | Inr cols \<Rightarrow>
                    (case raised of
                       Some e \<Rightarrow> (Inl e, x')
                     | None \<Rightarrow>
                         (case collect_preds nut predcol targetcol batches targets' x' of
                            (Inl e, x'') \<Rightarrow> (Inl e, x'')
                          | (Inr (ts, ps), x'') \<Rightarrow>
                              (Inr (ts, concat (map Flatten cols) @ ps), x''))))))"

text \<open>
  The two functions of numpy that \<^verbatim>\<open>EvalNut\<close> calls, \<^verbatim>\<open>np.vstack\<close> and
  \<^verbatim>\<open>astype(np.float)\<close>, are parameters.
\<close>

record 'v numpy =
  vstack :: "'v pyval list \<Rightarrow> error + 'v pyval"
  astype_float :: "'v pyval \<Rightarrow> error + 'v pyval"

text \<open>What \<^verbatim>\<open>EvalNut\<close> returns: the tuple of results, or the only result.\<close>

datatype 'r eval_result = Results "'r list" | Result 'r

text \<open>
  \<^verbatim>\<open>EvalNut\<close>. The argument \<open>predict\<close> is the method \<^verbatim>\<open>predict\<close> of the
  class of \<^verbatim>\<open>network\<close>; it is called once, when the pipeline is built. The
  nut reads the network when it runs, so the network is part of the state.
\<close>

definition EvalNut ::
  "'v numpy \<Rightarrow>
   ('n \<Rightarrow> bool \<Rightarrow> 'x \<Rightarrow> ('v pyval list list \<Rightarrow> 'x \<Rightarrow> ('v pyval, 'x) yielded, 'n, 'x) outcome) \<Rightarrow>
   'm list \<Rightarrow> ('m \<Rightarrow> 'v pyval \<Rightarrow> 'v pyval \<Rightarrow> error + 'r) \<Rightarrow> int option \<Rightarrow> int \<Rightarrow>
   'v pyval list list \<Rightarrow> 'n \<Rightarrow> 'x \<Rightarrow> ('r eval_result, 'n, 'x) outcome" where
  "EvalNut np predict metrics compute predcol targetcol batches network x =
     (case predict network False x of
        (Inl e, network', x0) \<Rightarrow> (Inl e, network', x0)
      | (Inr nut, network', x0) \<Rightarrow>
          (case collect_preds nut predcol targetcol batches [] x0 of
             (Inl e, x') \<Rightarrow> (Inl e, network', x')
           | (Inr (targets, preds), x') \<Rightarrow>
               (case vstack np targets of
                  Inl e \<Rightarrow> (Inl e, network', x')
                | Inr targets1 \<Rightarrow>
                    (case vstack np preds of
                       Inl e \<Rightarrow> (Inl e, network', x')
                     | Inr preds1 \<Rightarrow>
                         (case astype_float np targets1 of
                            Inl e \<Rightarrow> (Inl e, network', x')
                          | Inr targets2 \<Rightarrow>
                              (case map_err (\<lambda>m. compute m targets2 preds1) metrics of
                                 Inl e \<Rightarrow> (Inl e, network', x')
                               | Inr results \<Rightarrow>
                                   (if length results > 1
                                    then (Inr (Results results), network', x')
                                    else (case results of
                                            [] \<Rightarrow> (Inl IndexError, network', x')
                                          | r # _ \<Rightarrow> (Inr (Result r), network', x')))))))))"

section \<open>\<^verbatim>\<open>LasagneNetwork\<close>\<close>

text \<open>
  A Lasagne layer: its class name, its parameters (\<^verbatim>\<open>get_params()\<close>) and its
  \<^verbatim>\<open>input_layer\<close>; \<open>InputLayer\<close> is a layer without the attribute
  \<^verbatim>\<open>input_layer\<close>.
\<close>

datatype 'p layer = InputLayer | Layer string "'p list" "'p layer"

fun class_name :: "'p layer \<Rightarrow> string" where
  "class_name InputLayer = ''InputLayer''"
| "class_name (Layer name params inp) = name"

fun get_params :: "'p layer \<Rightarrow> 'p list" where
  "get_params InputLayer = []"
| "get_params (Layer name params inp) = params"

text \<open>\<^verbatim>\<open>_weight_layers\<close>: the loop follows \<^verbatim>\<open>input_layer\<close> while there is one.\<close>

fun weight_layers :: "'p layer \<Rightarrow> 'p layer list" where
  "weight_layers InputLayer = []"
| "weight_layers (Layer name params inp) = Layer name params inp # weight_layers inp"

text \<open>The decimal digits of a number, as \<^verbatim>\<open>'{}'.format\<close> prints them.\<close>

function str_nat :: "nat \<Rightarrow> string" where
  "str_nat n =
     (if n < 10 then [''0123456789'' ! n]
      else str_nat (n div 10) @ [''0123456789'' ! (n mod 10)])"
  by pat_completeness auto
termination
  by (relation "measure (\<lambda>n. n)") auto

text \<open>\<^verbatim>\<open>_get_named_params\<close>: the name of a parameter is \<^verbatim>\<open>'{}_{}'.format(l_num, p_num)\<close>.\<close>

definition get_named_params :: "'p layer \<Rightarrow> (string \<times> 'p) list" where
  "get_named_params network =
     concat (map (\<lambda>(l_num, layer).
                    map (\<lambda>(p_num, param). (str_nat l_num @ ''_'' @ str_nat p_num, param))
                        (enumerate 0 (get_params layer)))
                 (enumerate 0 (weight_layers network)))"

text \<open>
  What \<^verbatim>\<open>LasagneNetwork\<close> calls outside this repository: the value of a Theano
  shared variable read and set, \<^verbatim>\<open>np.savez_compressed\<close>, \<^verbatim>\<open>np.load\<close> and
  \<^verbatim>\<open>print\<close>. They act on the outside state \<open>'x\<close> only.
\<close>

record ('p, 'w, 'x) lasagne_env =
  get_value :: "'p \<Rightarrow> 'x \<Rightarrow> 'w"
  set_value :: "'p \<Rightarrow> 'w \<Rightarrow> 'x \<Rightarrow> (error + unit) \<times> 'x"
  savez_compressed :: "string \<Rightarrow> (string \<times> 'w) list \<Rightarrow> 'x \<Rightarrow> (error + unit) \<times> 'x"
  np_load :: "string \<Rightarrow> 'x \<Rightarrow> (error + (string \<rightharpoonup> 'w)) \<times> 'x"
  print :: "string \<Rightarrow> 'x \<Rightarrow> 'x"

record ('a, 'p, 'v, 'k, 'r, 'x) lasagne_network = "'a network" +
  out_layer :: "'p layer"
  train_fn :: "'v pyval list \<Rightarrow> 'k \<Rightarrow> 'x \<Rightarrow> (error + 'r) \<times> 'x"
  val_fn :: "'v pyval list \<Rightarrow> 'k \<Rightarrow> 'x \<Rightarrow> (error + 'r) \<times> 'x"
  pred_fn :: "'v pyval list \<Rightarrow> 'x \<Rightarrow> (error + 'v pyval) \<times> 'x"

definition LasagneNetwork_init ::
  "'p layer \<Rightarrow> ('v pyval list \<Rightarrow> 'k \<Rightarrow> 'x \<Rightarrow> (error + 'r) \<times> 'x) \<Rightarrow>
   ('v pyval list \<Rightarrow> 'k \<Rightarrow> 'x \<Rightarrow> (error + 'r) \<times> 'x) \<Rightarrow>
   ('v pyval list \<Rightarrow> 'x \<Rightarrow> (error + 'v pyval) \<times> 'x) \<Rightarrow> string option \<Rightarrow>
   ('a, 'p, 'v, 'k, 'r, 'x) lasagne_network" where
  "LasagneNetwork_init out_layer0 train_fn0 val_fn0 pred_fn0 weightspath =
     network.extend
       (Network_init (case weightspath of None \<Rightarrow> ''weights_lasagne_net.npz'' | Some w \<Rightarrow> w))
       (lasagne_network.fields out_layer0 train_fn0 val_fn0 pred_fn0)"

definition LasagneNetwork_train ::
  "('a, 'p, 'v, 'k, 'r, 'x) lasagne_network \<Rightarrow> 'k \<Rightarrow> 'x \<Rightarrow>
   ('v pyval list list \<Rightarrow> 'x \<Rightarrow> ('r, 'x) yielded, ('a, 'p, 'v, 'k, 'r, 'x) lasagne_network, 'x) outcome" where
  "LasagneNetwork_train self kwargs x = (Inr (TrainValNut (train_fn self) kwargs), self, x)"

definition LasagneNetwork_validate ::
  "('a, 'p, 'v, 'k, 'r, 'x) lasagne_network \<Rightarrow> 'k \<Rightarrow> 'x \<Rightarrow>
   ('v pyval list list \<Rightarrow> 'x \<Rightarrow> ('r, 'x) yielded, ('a, 'p, 'v, 'k, 'r, 'x) lasagne_network, 'x) outcome" where
  "LasagneNetwork_validate self kwargs x = (Inr (TrainValNut (val_fn self) kwargs), self, x)"

definition LasagneNetwork_predict ::
  "('a, 'p, 'v, 'k, 'r, 'x) lasagne_network \<Rightarrow> bool \<Rightarrow> 'x \<Rightarrow>
   ('v pyval list list \<Rightarrow> 'x \<Rightarrow> ('v pyval, 'x) yielded, ('a, 'p, 'v, 'k, 'r, 'x) lasagne_network, 'x) outcome" where
  "LasagneNetwork_predict self flatten x = (Inr (PredictNut (pred_fn self) flatten), self, x)"

text \<open>
  A metric returns a Theano expression, which has \<^verbatim>\<open>eval\<close> (here with what
  \<^verbatim>\<open>eval()\<close> gives), or a plain value.
\<close>

datatype 'r metric_value = Expr "error + 'r" | Plain 'r

definition Lasagne_compute ::
  "('v pyval \<Rightarrow> 'v pyval \<Rightarrow> error + 'r metric_value) \<Rightarrow> 'v pyval \<Rightarrow> 'v pyval \<Rightarrow> error + 'r" where
  "Lasagne_compute metric targets preds =
     (case metric targets preds of
        Inl e \<Rightarrow> Inl e
      | Inr (Expr evaluated) \<Rightarrow> evaluated
      | Inr (Plain r) \<Rightarrow> Inr r)"

definition LasagneNetwork_evaluate ::
  "'v numpy \<Rightarrow> ('a, 'p, 'v, 'k, 'r, 'x) lasagne_network \<Rightarrow>
   ('v pyval \<Rightarrow> 'v pyval \<Rightarrow> error + 's metric_value) list \<Rightarrow> int option \<Rightarrow> int \<Rightarrow> 'x \<Rightarrow>
   ('v pyval list list \<Rightarrow> ('a, 'p, 'v, 'k, 'r, 'x) lasagne_network \<Rightarrow> 'x \<Rightarrow>
      ('s eval_result, ('a, 'p, 'v, 'k, 'r, 'x) lasagne_network, 'x) outcome,
    ('a, 'p, 'v, 'k, 'r, 'x) lasagne_network, 'x) outcome" where
  "LasagneNetwork_evaluate np self metrics predcol targetcol x =
     (Inr (EvalNut np LasagneNetwork_predict metrics Lasagne_compute predcol targetcol), self, x)"

definition LasagneNetwork_save_weights ::
  "('p, 'w, 'x) lasagne_env \<Rightarrow> ('a, 'p, 'v, 'k, 'r, 'x) lasagne_network \<Rightarrow> 'x \<Rightarrow>
   (unit, ('a, 'p, 'v, 'k, 'r, 'x) lasagne_network, 'x) outcome" where
  "LasagneNetwork_save_weights env self x =
     (let weights = map (\<lambda>(name, p). (name, get_value env p x))
                        (get_named_params (out_layer self))
      in case savez_compressed env (filepath self) weights x of
           (Inl e, x') \<Rightarrow> (Inl e, self, x')
         | (Inr u, x') \<Rightarrow> (Inr (), self, x'))"

text \<open>The loop of \<^verbatim>\<open>load_weights\<close>: \<^verbatim>\<open>param.set_value(weights[name])\<close>.\<close>

fun set_values ::
  "('p, 'w, 'x) lasagne_env \<Rightarrow> (string \<rightharpoonup> 'w) \<Rightarrow> (string \<times> 'p) list \<Rightarrow> 'x \<Rightarrow> (error + unit) \<times> 'x" where
  "set_values env weights [] x = (Inr (), x)"
| "set_values env weights ((name, param) # rest) x =
     (case weights name of
        None \<Rightarrow> (Inl (KeyError name), x)
      | Some w \<Rightarrow>
          (case set_value env param w x of
             (Inl e, x') \<Rightarrow> (Inl e, x')
           | (Inr u, x') \<Rightarrow> set_values env weights rest x'))"

definition LasagneNetwork_load_weights ::
  "('p, 'w, 'x) lasagne_env \<Rightarrow> ('a, 'p, 'v, 'k, 'r, 'x) lasagne_network \<Rightarrow> 'x \<Rightarrow>
   (unit, ('a, 'p, 'v, 'k, 'r, 'x) lasagne_network, 'x) outcome" where
  "LasagneNetwork_load_weights env self x =
     (case np_load env (filepath self) x of
        (Inl e, x') \<Rightarrow> (Inl e, self, x')
      | (Inr weights, x') \<Rightarrow>
          (case set_values env weights (get_named_params (out_layer self)) x' of
             (r, x'') \<Rightarrow> (r, self, x'')))"

fun print_each :: "('p, 'w, 'x) lasagne_env \<Rightarrow> 'p layer list \<Rightarrow> 'x \<Rightarrow> 'x" where
  "print_each env [] x = x"
| "print_each env (layer # layers) x =
     print_each env layers (print env (class_name layer) (print env (replicate 80 (CHR ''_'')) x))"

definition LasagneNetwork_print_layers ::
  "('p, 'w, 'x) lasagne_env \<Rightarrow> ('a, 'p, 'v, 'k, 'r, 'x) lasagne_network \<Rightarrow> 'x \<Rightarrow>
   (unit, ('a, 'p, 'v, 'k, 'r, 'x) lasagne_network, 'x) outcome" where
  "LasagneNetwork_print_layers env self x =
     (Inr (), self, print_each env (weight_layers (out_layer self)) x)"

section \<open>\<^verbatim>\<open>KerasNetwork\<close>\<close>

text \<open>
  The Keras model is an object of the framework: its methods act on the outside state
  \<open>'x\<close> (the model's weights, the file system, the standard output) and may raise.
\<close>

record ('v, 'k, 'r, 'x) keras_model =
  train_on_batch :: "'v pyval list \<Rightarrow> 'k \<Rightarrow> 'x \<Rightarrow> (error + 'r) \<times> 'x"
  test_on_batch :: "'v pyval list \<Rightarrow> 'k \<Rightarrow> 'x \<Rightarrow> (error + 'r) \<times> 'x"
  predict_on_batch :: "'v pyval list \<Rightarrow> 'x \<Rightarrow> (error + 'v pyval) \<times> 'x"
  model_save_weights :: "string \<Rightarrow> 'x \<Rightarrow> (error + unit) \<times> 'x"
  model_load_weights :: "string \<Rightarrow> 'x \<Rightarrow> (error + unit) \<times> 'x"
  summary :: "'x \<Rightarrow> (error + unit) \<times> 'x"

record ('a, 'v, 'k, 'r, 'x) keras_network = "'a network" +
  model :: "('v, 'k, 'r, 'x) keras_model"

definition KerasNetwork_init ::
  "('v, 'k, 'r, 'x) keras_model \<Rightarrow> string option \<Rightarrow> ('a, 'v, 'k, 'r, 'x) keras_network" where
  "KerasNetwork_init model0 weightspath =
     network.extend
       (Network_init (case weightspath of None \<Rightarrow> ''weights_keras_net.hd5'' | Some w \<Rightarrow> w))
       (keras_network.fields model0)"

definition KerasNetwork_train ::
  "('a, 'v, 'k, 'r, 'x) keras_network \<Rightarrow> 'k \<Rightarrow> 'x \<Rightarrow>
   ('v pyval list list \<Rightarrow> 'x \<Rightarrow> ('r, 'x) yielded, ('a, 'v, 'k, 'r, 'x) keras_network, 'x) outcome" where
  "KerasNetwork_train self kwargs x =
     (Inr (TrainValNut (train_on_batch (model self)) kwargs), self, x)"

definition KerasNetwork_validate ::
  "('a, 'v, 'k, 'r, 'x) keras_network \<Rightarrow> 'k \<Rightarrow> 'x \<Rightarrow>
   ('v pyval list list \<Rightarrow> 'x \<Rightarrow> ('r, 'x) yielded, ('a, 'v, 'k, 'r, 'x) keras_network, 'x) outcome" where
  "KerasNetwork_validate self kwargs x =
     (Inr (TrainValNut (test_on_batch (model self)) kwargs), self, x)"

definition KerasNetwork_predict ::
  "('a, 'v, 'k, 'r, 'x) keras_network \<Rightarrow> bool \<Rightarrow> 'x \<Rightarrow>
   ('v pyval list list \<Rightarrow> 'x \<Rightarrow> ('v pyval, 'x) yielded, ('a, 'v, 'k, 'r, 'x) keras_network, 'x) outcome" where
  "KerasNetwork_predict self flatten x =
     (Inr (PredictNut (predict_on_batch (model self)) flatten), self, x)"

text \<open>
  The Keras backend \<^verbatim>\<open>K\<close> and \<^verbatim>\<open>np.mean\<close>, as \<^verbatim>\<open>compute\<close> uses them: a
  metric takes two backend variables and returns a tensor, which is evaluated by
  \<^verbatim>\<open>eval()\<close> under Theano and by \<^verbatim>\<open>eval(session=K.get_session())\<close> otherwise.
\<close>

record ('v, 't, 'e) keras_backend =
  variable :: "'v pyval \<Rightarrow> 't"
  backend :: string
  eval_theano :: "'e \<Rightarrow> error + 'v pyval"
  eval_session :: "'e \<Rightarrow> error + 'v pyval"
  np_mean :: "'v pyval \<Rightarrow> 'v"

definition Keras_compute ::
  "('v, 't, 'e) keras_backend \<Rightarrow> ('t \<Rightarrow> 't \<Rightarrow> error + 'e) \<Rightarrow> 'v pyval \<Rightarrow> 'v pyval \<Rightarrow> error + 'v" where
  "Keras_compute K metric targets preds =
     (case metric (variable K targets) (variable K preds) of
        Inl e \<Rightarrow> Inl e
      | Inr result \<Rightarrow>
          (let is_theano = (backend K = ''theano'')
           in case (if is_theano then eval_theano K result else eval_session K result) of
                Inl e \<Rightarrow> Inl e
              | Inr (Seq vs) \<Rightarrow> Inr (np_mean K (Seq vs))
              | Inr (Scalar v) \<Rightarrow> Inr v))"

definition KerasNetwork_evaluate ::
  "'v numpy \<Rightarrow> ('v, 't, 'e) keras_backend \<Rightarrow> ('a, 'v, 'k, 'r, 'x) keras_network \<Rightarrow>
   ('t \<Rightarrow> 't \<Rightarrow> error + 'e) list \<Rightarrow> int option \<Rightarrow> int \<Rightarrow> 'x \<Rightarrow>
   ('v pyval list list \<Rightarrow> ('a, 'v, 'k, 'r, 'x) keras_network \<Rightarrow> 'x \<Rightarrow>
      ('v eval_result, ('a, 'v, 'k, 'r, 'x) keras_network, 'x) outcome,
    ('a, 'v, 'k, 'r, 'x) keras_network, 'x) outcome" where
  "KerasNetwork_evaluate np K self metrics predcol targetcol x =
     (Inr (EvalNut np KerasNetwork_predict metrics (Keras_compute K) predcol targetcol), self, x)"

definition KerasNetwork_save_weights ::
  "('a, 'v, 'k, 'r, 'x) keras_network \<Rightarrow> 'x \<Rightarrow> (unit, ('a, 'v, 'k, 'r, 'x) keras_network, 'x) outcome" where
  "KerasNetwork_save_weights self x =
     (case model_save_weights (model self) (filepath self) x of (r, x') \<Rightarrow> (r, self, x'))"

definition KerasNetwork_load_weights ::
  "('a, 'v, 'k, 'r, 'x) keras_network \<Rightarrow> 'x \<Rightarrow> (unit, ('a, 'v, 'k, 'r, 'x) keras_network, 'x) outcome" where
  "KerasNetwork_load_weights self x =
     (case model_load_weights (model self) (filepath self) x of (r, x') \<Rightarrow> (r, self, x'))"

definition KerasNetwork_print_layers ::
  "('a, 'v, 'k, 'r, 'x) keras_network \<Rightarrow> 'x \<Rightarrow> (unit, ('a, 'v, 'k, 'r, 'x) keras_network, 'x) outcome" where
  "KerasNetwork_print_layers self x =
     (case summary (model self) x of (r, x') \<Rightarrow> (r, self, x'))"

section \<open>The random splitter of the tests\<close>

text \<open>
  Modelled from the spec: \<^verbatim>\<open>SplitRandom\<close> is imported from \<^verbatim>\<open>nutsml\<close> by
  \<^verbatim>\<open>tests/nutsml/test_common.py\<close>, and its definition is not among the sources.
  The specification describes it as a stratified random splitter that "partitions a
  sequence into ratio-sized buckets, optionally preserving group-membership constraints
  and using a seedable random source", "a short, single-pass algorithm". The tests call
  it with one ratio (two buckets) or a tuple of ratios, expect
  \<^verbatim>\<open>ValueError('Ratios must sum up to one ...')\<close> for \<^verbatim>\<open>(0.6, 0.7)\<close>, and pass
  the constraint as a function from a sample to its group. The model below follows
  these words: samples are put into groups (one per sample when there is no
  constraint), the groups are shuffled with the random source, and one pass over the
  shuffled groups fills the buckets in order, each up to its ratio of the number of
  samples, the last bucket taking what remains. Ratios are exact rationals.
\<close>

text \<open>
  Modelled from the spec: the random source is a state \<open>'g\<close> with a function that
  draws the next number; seeding sets the state.
\<close>

type_synonym 'g draw = "'g \<Rightarrow> nat \<times> 'g"

text \<open>
  Modelled from the spec: a shuffle by the random source. Each step draws a number and
  moves the element it selects to the output.
\<close>

function shuffle :: "'g draw \<Rightarrow> 'a list \<Rightarrow> 'g \<Rightarrow> 'a list \<times> 'g" where
  "shuffle draw xs g =
     (if xs = [] then ([], g)
      else (case draw g of
              (r, g') \<Rightarrow>
                (let j = r mod length xs
                 in case shuffle draw (take j xs @ drop (Suc j) xs) g' of
                      (ys, g'') \<Rightarrow> (xs ! j # ys, g''))))"
  by pat_completeness auto
termination
proof (relation "measure (\<lambda>(draw, xs, g). length xs)", goal_cases)
  case 1
  show ?case by simp
next
  case (2 draw xs g r g' j)
  then have "j < length xs"
    by simp
  then show ?case
    by simp
qed

declare shuffle.simps [simp del]

text \<open>
  Modelled from the spec: the groups of a constraint, in the order of their first
  samples. Two samples are in one group iff the constraint gives them the same value.
\<close>

fun group_by :: "('a \<Rightarrow> 'k) \<Rightarrow> 'a list \<Rightarrow> 'a list list" where
  "group_by key [] = []"
| "group_by key (x # xs) =
     (x # filter (\<lambda>y. key y = key x) xs) # group_by key (filter (\<lambda>y. key y \<noteq> key x) xs)"

text \<open>
  Modelled from the spec: the argument \<^verbatim>\<open>ratio\<close> is one ratio or a tuple of
  ratios. One ratio \<open>r\<close> stands for the two ratios \<open>r\<close> and \<open>1 - r\<close>; a
  tuple of ratios must sum up to one.
\<close>

datatype ratio = Ratio rat | Ratios "rat list"

fun ratios_of :: "ratio \<Rightarrow> error + rat list" where
  "ratios_of (Ratio r) = Inr [r, 1 - r]"
| "ratios_of (Ratios rs) =
     (if sum_list rs = 1 then Inr rs else Inl (ValueError ''Ratios must sum up to one''))"

text \<open>Modelled from the spec: the size of a bucket, its ratio of \<open>n\<close> samples.\<close>

definition bucket_size :: "nat \<Rightarrow> rat \<Rightarrow> nat" where
  "bucket_size n r = nat \<lfloor>r * of_nat n\<rfloor>"

text \<open>
  Modelled from the spec: groups are taken from the front, whole, until the bucket has
  \<open>n\<close> samples; the result is the bucket and the groups left.
\<close>

fun take_groups :: "nat \<Rightarrow> 'a list list \<Rightarrow> 'a list \<times> 'a list list" where
  "take_groups n [] = ([], [])"
| "take_groups n (grp # groups) =
     (if n = 0 then ([], grp # groups)
      else (case take_groups (n - length grp) groups of
              (split, rest) \<Rightarrow> (grp @ split, rest)))"

text \<open>
  Modelled from the spec: the single pass that fills one bucket per size; the last
  bucket takes the remaining groups.
\<close>

fun fill_buckets :: "nat list \<Rightarrow> 'a list list \<Rightarrow> 'a list list" where
  "fill_buckets [] groups = []"
| "fill_buckets [n] groups = [concat groups]"
| "fill_buckets (n # ns) groups =
     (case take_groups n groups of
        (split, rest) \<Rightarrow> split # fill_buckets ns rest)"

text \<open>Modelled from the spec: \<^verbatim>\<open>samples >> SplitRandom(ratio, constraint, rand)\<close>.\<close>

definition SplitRandom ::
  "ratio \<Rightarrow> ('a \<Rightarrow> 'k) option \<Rightarrow> 'g draw \<Rightarrow> 'a list \<Rightarrow> 'g \<Rightarrow> (error + 'a list list) \<times> 'g" where
  "SplitRandom ratio constraint draw samples g =
     (case ratios_of ratio of
        Inl e \<Rightarrow> (Inl e, g)
      | Inr ratios \<Rightarrow>
          (let ns = map (bucket_size (length samples)) ratios;
               groups = (case constraint of
                           None \<Rightarrow> map (\<lambda>s. [s]) samples
                         | Some key \<Rightarrow> group_by key samples)
           in case shuffle draw groups g of
                (shuffled, g') \<Rightarrow> (Inr (fill_buckets ns shuffled), g')))"

text \<open>
  Modelled from the spec: what a seeded random source gives, the first \<open>k\<close>
  numbers it draws. Two sources are seeded identically when they draw the same
  numbers.
\<close>

fun draws :: "'g draw \<Rightarrow> nat \<Rightarrow> 'g \<Rightarrow> nat list" where
  "draws draw 0 g = []"
| "draws draw (Suc k) g = (case draw g of (r, g') \<Rightarrow> r # draws draw k g')"

section \<open>The evaluation as the specification words it\<close>

text \<open>
  The specification describes the evaluation aggregator in three steps: it
  "accumulates per-batch predictions/targets, stacks them, and applies caller-supplied
  metric functions over the full accumulated set rather than per-batch". The
  definitions of this section follow these words, one per step, to be compared with
  \<^verbatim>\<open>EvalNut\<close> as the source has it.
\<close>

text \<open>The rows of the target column of one batch.\<close>

definition batch_targets :: "int \<Rightarrow> 'v pyval list \<Rightarrow> error + 'v pyval list" where
  "batch_targets targetcol batch =
     (case py_index batch targetcol of Inl e \<Rightarrow> Inl e | Inr target \<Rightarrow> py_iter target)"

text \<open>
  Step one: the targets of all batches, and the predictions of the prediction function
  \<open>func\<close> for all batches without their target column.
\<close>

definition accumulated ::
  "('v pyval list \<Rightarrow> 'x \<Rightarrow> (error + 'v pyval) \<times> 'x) \<Rightarrow> int option \<Rightarrow> int \<Rightarrow>
   'v pyval list list \<Rightarrow> 'x \<Rightarrow> (error + ('v pyval list \<times> 'v pyval list)) \<times> 'x" where
  "accumulated func predcol targetcol batches x =
     (case map_err (batch_targets targetcol) batches of
        Inl e \<Rightarrow> (Inl e, x)
      | Inr target_lists \<Rightarrow>
          (case PredictNut func False (map (\<lambda>batch. py_slice_to batch targetcol) batches) x of
             ((pred_batches, Some e), x') \<Rightarrow> (Inl e, x')
           | ((pred_batches, None), x') \<Rightarrow>
               (case map_err (Get predcol) pred_batches of
                  Inl e \<Rightarrow> (Inl e, x')
                | Inr cols \<Rightarrow> (Inr (concat target_lists, concat (map Flatten cols)), x'))))"

text \<open>Step two: each accumulated list is stacked into one array.\<close>

definition stacked ::
  "'v numpy \<Rightarrow> 'v pyval list \<Rightarrow> 'v pyval list \<Rightarrow> error + ('v pyval \<times> 'v pyval)" where
  "stacked np targets preds =
     (case vstack np targets of
        Inl e \<Rightarrow> Inl e
      | Inr full_targets \<Rightarrow>
          (case vstack np preds of
             Inl e \<Rightarrow> Inl e
           | Inr full_preds \<Rightarrow>
               (case astype_float np full_targets of
                  Inl e \<Rightarrow> Inl e
                | Inr float_targets \<Rightarrow> Inr (float_targets, full_preds))))"

text \<open>
  Step three: every metric is computed once, on the two full arrays; one result is
  returned as it is, several as a tuple.
\<close>

definition EvalNut_spec ::
  "'v numpy \<Rightarrow> ('v pyval list \<Rightarrow> 'x \<Rightarrow> (error + 'v pyval) \<times> 'x) \<Rightarrow>
   'm list \<Rightarrow> ('m \<Rightarrow> 'v pyval \<Rightarrow> 'v pyval \<Rightarrow> error + 'r) \<Rightarrow> int option \<Rightarrow> int \<Rightarrow>
   'v pyval list list \<Rightarrow> 'n \<Rightarrow> 'x \<Rightarrow> ('r eval_result, 'n, 'x) outcome" where
  "EvalNut_spec np func metrics compute predcol targetcol batches network x =
     (case accumulated func predcol targetcol batches x of
        (Inl e, x') \<Rightarrow> (Inl e, network, x')
      | (Inr (targets, preds), x') \<Rightarrow>
          (case stacked np targets preds of
             Inl e \<Rightarrow> (Inl e, network, x')
           | Inr (full_targets, full_preds) \<Rightarrow>
               (case map_err (\<lambda>metric. compute metric full_targets full_preds) metrics of
                  Inl e \<Rightarrow> (Inl e, network, x')
                | Inr [] \<Rightarrow> (Inl IndexError, network, x')
                | Inr [r] \<Rightarrow> (Inr (Result r), network, x')
                | Inr results \<Rightarrow> (Inr (Results results), network, x'))))"

section \<open>Frame conditions and sample objects\<close>

text \<open>
  The two attributes of \<^verbatim>\<open>Network\<close> after a call, compared with the object
  before it.
\<close>

definition fields_unchanged ::
  "('a, 'b) network_scheme \<Rightarrow> ('r, ('a, 'b) network_scheme, 'x) outcome \<Rightarrow> bool" where
  "fields_unchanged self out =
     (case out of (r, self', x') \<Rightarrow>
        filepath self' = filepath self \<and> best_score self' = best_score self)"

definition filepath_unchanged ::
  "('a, 'b) network_scheme \<Rightarrow> ('r, ('a, 'b) network_scheme, 'x) outcome \<Rightarrow> bool" where
  "filepath_unchanged self out =
     (case out of (r, self', x') \<Rightarrow> filepath self' = filepath self)"

text \<open>
  A Keras model for the examples: the outside state is the list of the weights files
  written so far, a prediction is the first array of the batch.
\<close>

definition example_model :: "(int, unit, int, string list) keras_model" where
  "example_model =
     \<lparr>train_on_batch = (\<lambda>batch kwargs x. (Inr 0, x)),
      test_on_batch = (\<lambda>batch kwargs x. (Inr 0, x)),
      predict_on_batch =
        (\<lambda>batch x. (case batch of [] \<Rightarrow> (Inl TypeError, x) | a # _ \<Rightarrow> (Inr a, x))),
      model_save_weights = (\<lambda>path x. (Inr (), path # x)),
      model_load_weights =
        (\<lambda>path x. (if path \<in> set x then Inr () else Inl (FrameworkError ''no such file''), x)),
      summary = (\<lambda>x. (Inr (), x))\<rparr>"

text \<open>
  A stand-in for numpy in the examples: \<^verbatim>\<open>vstack\<close> refuses the empty list and
  makes one array of the rows otherwise.
\<close>

definition example_numpy :: "int numpy" where
  "example_numpy =
     \<lparr>vstack = (\<lambda>rows. if rows = []
                       then Inl (ValueError ''need at least one array to concatenate'')
                       else Inr (Seq rows)),
      astype_float = Inr\<rparr>"

text \<open>
  A metric for the examples: the number of rows in which the targets and the
  predictions differ.
\<close>

definition example_metric :: "int pyval \<Rightarrow> int pyval \<Rightarrow> int" where
  "example_metric targets preds =
     (case (targets, preds) of
        (Seq ts, Seq ps) \<Rightarrow> int (length (filter (\<lambda>(t, p). t \<noteq> p) (zip ts ps)))
      | _ \<Rightarrow> 0)"

text \<open>A random source for the examples: the state is the seed, and the number drawn.\<close>

definition example_draw :: "nat draw" where
  "example_draw g = (g, (5 * g + 3) mod 16)"

text \<open>
  A second random source for the examples: it draws the same numbers and also counts
  its calls.
\<close>

definition counting_draw :: "(nat \<times> nat) draw" where
  "counting_draw s = (case s of (g, calls) \<Rightarrow> (g, ((5 * g + 3) mod 16, Suc calls)))"

section \<open>Properties of \<^verbatim>\<open>save_best\<close>\<close>

lemma accepts_None: "accepts None score isloss"
  by (simp add: accepts_def)

lemma accepts_zero: "accepts (Some (Num 0)) score isloss"
  by (simp add: accepts_def)

lemma py_lt_irrefl: "\<not> py_lt b b"
  by (cases b) simp_all

lemma py_gt_irrefl: "\<not> py_gt b b"
  by (cases b) simp_all

lemma accepts_tie: "truthy b \<Longrightarrow> \<not> accepts (Some b) b isloss"
  by (simp add: accepts_def py_lt_irrefl py_gt_irrefl)

lemma accepts_set_nonzero:
  "truthy b \<Longrightarrow> accepts (Some b) score isloss = (if isloss then py_lt score b else py_gt score b)"
  by (simp add: accepts_def)

lemma py_lt_trans: "py_lt a b \<Longrightarrow> py_lt b c \<Longrightarrow> py_lt a c"
  by (cases a; cases b; cases c) auto

lemma py_gt_trans: "py_gt a b \<Longrightarrow> py_gt b c \<Longrightarrow> py_gt a c"
  by (cases a; cases b; cases c) auto

lemma KerasNetwork_save_weights_best_score:
  "best_score (fst (snd (KerasNetwork_save_weights self x))) = best_score self"
  by (simp add: KerasNetwork_save_weights_def split: prod.splits)

text \<open>
  Where no score is zero the best score of a Keras network moves one way only: after any
  sequence of calls it is the earlier best score or a strictly better one.
\<close>

lemma save_best_all_monotone:
  assumes "best_score self = Some b" and "truthy b" and "list_all truthy scores"
  shows "\<exists>b'. best_score (fst (save_best_all KerasNetwork_save_weights isloss scores (self, x))) = Some b'
           \<and> truthy b' \<and> (b' = b \<or> (if isloss then py_lt b' b else py_gt b' b))"
  using assms
proof (induction scores arbitrary: self x b)
  case Nil
  then show ?case by simp
next
  case (Cons score scores)
  let ?s = "snd (save_best KerasNetwork_save_weights self score isloss x)"
  from Cons.prems have sc: "truthy score" and rest: "list_all truthy scores"
    by simp_all
  show ?case
  proof (cases "accepts (best_score self) score isloss")
    case True
    then have best: "best_score (fst ?s) = Some score"
      by (simp add: save_best_def KerasNetwork_save_weights_best_score)
    from True Cons.prems(1,2) have better: "if isloss then py_lt score b else py_gt score b"
      by (simp add: accepts_set_nonzero)
    from Cons.IH [OF best sc rest, of "snd ?s"]
    obtain b' where b': "best_score (fst (save_best_all KerasNetwork_save_weights isloss scores ?s)) = Some b'"
      "truthy b'" "b' = score \<or> (if isloss then py_lt b' score else py_gt b' score)"
      by auto
    from b'(3) better have "if isloss then py_lt b' b else py_gt b' b"
      by (auto intro: py_lt_trans py_gt_trans split: if_splits)
    with b'(1,2) show ?thesis
      by simp
  next
    case False
    then have s: "?s = (self, x)"
      by (simp add: save_best_def)
    from Cons.IH [OF Cons.prems(1,2) rest, of x] s show ?thesis
      by simp
  qed
qed

text \<open>
  Claim C1, at the input where the code departs from it. A Keras network is
  constructed, \<^verbatim>\<open>save_best(0.0, isloss=True)\<close> sets \<^verbatim>\<open>best_score\<close> to
  \<open>0\<close>, and \<^verbatim>\<open>save_best(1.0, isloss=True)\<close> then sets it to \<open>1\<close>: the best
  loss has increased, because a best score of zero counts as no best score in the
  guard.
\<close>

theorem save_best_zero_loss_then_higher:
  "best_score (fst (save_best_all KerasNetwork_save_weights True [Num 0]
       (KerasNetwork_init m w, x))) = Some (Num (0::real)) \<and>
   best_score (fst (save_best_all KerasNetwork_save_weights True [Num 0, Num 1]
       (KerasNetwork_init m w, x))) = Some (Num 1) \<and>
   py_gt (Num (1::real)) (Num 0)"
  by (simp add: save_best_def accepts_def KerasNetwork_save_weights_def
      KerasNetwork_init_def Network_init_def network.defs keras_network.defs split: prod.splits)

text \<open>
  Claim C2, at the input where the code departs from it. With a best loss of \<open>0\<close>,
  \<^verbatim>\<open>save_best(1.0, isloss=True)\<close> assigns \<^verbatim>\<open>best_score\<close> and calls
  \<^verbatim>\<open>save_weights\<close>, although \<open>1\<close> is not lower than \<open>0\<close>.
\<close>

theorem save_best_zero_best_saves_worse:
  "save_best KerasNetwork_save_weights (self\<lparr>best_score := Some (Num (0::real))\<rparr>) (Num 1) True x =
     KerasNetwork_save_weights (self\<lparr>best_score := Some (Num 1)\<rparr>) x \<and>
   \<not> py_lt (Num (1::real)) (Num 0)"
  by (simp add: save_best_def accepts_zero)

text \<open>
  Claim C10. When \<^verbatim>\<open>best_score\<close> is set and not zero, \<^verbatim>\<open>save_best\<close> with a
  score equal to it does nothing, whatever \<^verbatim>\<open>isloss\<close> is and whatever the
  \<^verbatim>\<open>save_weights\<close> of the class does: it returns normally, the object and the
  outside state are as before, so \<^verbatim>\<open>save_weights\<close> was not called.
\<close>

theorem save_best_tie_noop:
  "best_score self = Some b \<Longrightarrow> truthy b \<Longrightarrow>
   save_best save_weights self b isloss x = (Inr (), self, x)"
  by (simp add: save_best_def accepts_tie)

theorem save_best_tie_noop_witness:
  "best_score \<lparr>filepath = ''weights.npz'', best_score = Some (Num (3::int))\<rparr> = Some (Num 3) \<and>
   truthy (Num (3::int)) \<and>
   save_best Network_save_weights \<lparr>filepath = ''weights.npz'', best_score = Some (Num (3::int))\<rparr>
     (Num 3) True () = (Inr (), \<lparr>filepath = ''weights.npz'', best_score = Some (Num 3)\<rparr>, ())"
proof -
  have h1: "best_score \<lparr>filepath = ''weights.npz'', best_score = Some (Num (3::int))\<rparr> = Some (Num 3)"
    by simp
  have h2: "truthy (Num (3::int))"
    by simp
  from h1 h2 save_best_tie_noop [OF h1 h2, of Network_save_weights True "()"]
  show ?thesis
    by blast
qed

section \<open>Errors and frame of the \<^verbatim>\<open>Network\<close> classes\<close>

text \<open>
  Claim C3 as stated fails: \<^verbatim>\<open>EvalNut\<close> over one well-formed batch with an empty
  list of metrics raises \<^verbatim>\<open>IndexError\<close> (at \<^verbatim>\<open>results[0]\<close>), which is not the
  "not implemented" error of an abstract method.
\<close>

theorem EvalNut_no_metrics_IndexError:
  "fst (EvalNut example_numpy KerasNetwork_predict [] (\<lambda>(m::unit) t p. Inr (0::int)) None (- 1)
          [[Seq [Scalar 1, Scalar 2], Seq [Scalar 1, Scalar 0]]]
          (KerasNetwork_init example_model None :: (real, int, unit, int, string list) keras_network) [])
   = Inl IndexError"
  by (simp add: EvalNut_def KerasNetwork_predict_def KerasNetwork_init_def Network_init_def
      network.defs keras_network.defs example_model_def example_numpy_def accumulate_def
      py_index_def py_slice_to_def yield_first_def)

text \<open>
  Claim C3, amended. Each of the seven abstract methods of the base class
  \<^verbatim>\<open>Network\<close> raises \<^verbatim>\<open>NotImplementedError\<close> with its own message, for every
  object, argument and outside state.
\<close>

theorem Network_abstract_methods_not_implemented:
  "fst (Network_train self x :: (unit, _, _) outcome)
     = Inl (NotImplementedError ''Implement train()!'') \<and>
   fst (Network_validate self x :: (unit, _, _) outcome)
     = Inl (NotImplementedError ''Implement validate()!'') \<and>
   fst (Network_predict self flatten x :: (unit, _, _) outcome)
     = Inl (NotImplementedError ''Implement predict()!'') \<and>
   fst (Network_evaluate self metrics predcol targetcol x :: (unit, _, _) outcome)
     = Inl (NotImplementedError ''Implement evaluate()!'') \<and>
   fst (Network_save_weights self x) = Inl (NotImplementedError ''Implement save_weights()!'') \<and>
   fst (Network_load_weights self x) = Inl (NotImplementedError ''Implement load_weights()!'') \<and>
   fst (Network_print_layers self x) = Inl (NotImplementedError ''Implement print_layers()!'')"
  by (simp add: Network_train_def Network_validate_def Network_predict_def Network_evaluate_def
      Network_save_weights_def Network_load_weights_def Network_print_layers_def)

lemma EvalNut_network_unchanged:
  assumes "\<And>flatten x0. fst (snd (predict network flatten x0)) = network"
  shows "fst (snd (EvalNut np predict metrics compute predcol targetcol batches network x)) = network"
  using assms [of False x]
  by (auto simp add: EvalNut_def split: prod.splits sum.splits list.splits)

text \<open>
  Claim C9. In the base class and in both wrappers, the methods \<^verbatim>\<open>train\<close>,
  \<^verbatim>\<open>validate\<close>, \<^verbatim>\<open>predict\<close>, \<^verbatim>\<open>evaluate\<close>, \<^verbatim>\<open>save_weights\<close>,
  \<^verbatim>\<open>load_weights\<close> and \<^verbatim>\<open>print_layers\<close> leave \<^verbatim>\<open>filepath\<close> and
  \<^verbatim>\<open>best_score\<close> as they were, whether they return or raise, and so does running the
  evaluation nut of a wrapper; \<^verbatim>\<open>save_best\<close> leaves \<^verbatim>\<open>filepath\<close> as it was.
\<close>

theorem Network_fields_frame:
  "fields_unchanged self (Network_train self x :: (unit, _, _) outcome) \<and>
   fields_unchanged self (Network_validate self x :: (unit, _, _) outcome) \<and>
   fields_unchanged self (Network_predict self flatten x :: (unit, _, _) outcome) \<and>
   fields_unchanged self (Network_evaluate self metrics predcol targetcol x :: (unit, _, _) outcome) \<and>
   fields_unchanged self (Network_save_weights self x) \<and>
   fields_unchanged self (Network_load_weights self x) \<and>
   fields_unchanged self (Network_print_layers self x) \<and>
   fields_unchanged l (LasagneNetwork_train l kwargs x) \<and>
   fields_unchanged l (LasagneNetwork_validate l kwargs x) \<and>
   fields_unchanged l (LasagneNetwork_predict l flatten x) \<and>
   fields_unchanged l (LasagneNetwork_evaluate np l lmetrics predcol targetcol x) \<and>
   fields_unchanged l (LasagneNetwork_save_weights env l x) \<and>
   fields_unchanged l (LasagneNetwork_load_weights env l x) \<and>
   fields_unchanged l (LasagneNetwork_print_layers env l x) \<and>
   fields_unchanged l
     (EvalNut np LasagneNetwork_predict lmetrics Lasagne_compute predcol targetcol batches l x) \<and>
   fields_unchanged k (KerasNetwork_train k kwargs x) \<and>
   fields_unchanged k (KerasNetwork_validate k kwargs x) \<and>
   fields_unchanged k (KerasNetwork_predict k flatten x) \<and>
   fields_unchanged k (KerasNetwork_evaluate np K k kmetrics predcol targetcol x) \<and>
   fields_unchanged k (KerasNetwork_save_weights k x) \<and>
   fields_unchanged k (KerasNetwork_load_weights k x) \<and>
   fields_unchanged k (KerasNetwork_print_layers k x) \<and>
   fields_unchanged k
     (EvalNut np KerasNetwork_predict kmetrics (Keras_compute K) predcol targetcol batches k x) \<and>
   filepath_unchanged self (save_best Network_save_weights self score isloss x) \<and>
   filepath_unchanged l (save_best (LasagneNetwork_save_weights env) l score isloss x) \<and>
   filepath_unchanged k (save_best KerasNetwork_save_weights k score isloss x)"
proof -
  have l: "fst (snd (EvalNut np LasagneNetwork_predict lmetrics Lasagne_compute predcol targetcol batches l x)) = l"
    by (rule EvalNut_network_unchanged) (simp add: LasagneNetwork_predict_def)
  have k: "fst (snd (EvalNut np KerasNetwork_predict kmetrics (Keras_compute K) predcol targetcol batches k x)) = k"
    by (rule EvalNut_network_unchanged) (simp add: KerasNetwork_predict_def)
  have el: "fields_unchanged l
     (EvalNut np LasagneNetwork_predict lmetrics Lasagne_compute predcol targetcol batches l x)"
    using l by (auto simp add: fields_unchanged_def split: prod.splits)
  have ek: "fields_unchanged k
     (EvalNut np KerasNetwork_predict kmetrics (Keras_compute K) predcol targetcol batches k x)"
    using k by (auto simp add: fields_unchanged_def split: prod.splits)
  show ?thesis
    by (simp add: el ek)
      (simp add: fields_unchanged_def filepath_unchanged_def save_best_def
        Network_train_def Network_validate_def Network_predict_def Network_evaluate_def
        Network_save_weights_def Network_load_weights_def Network_print_layers_def
        LasagneNetwork_train_def LasagneNetwork_validate_def LasagneNetwork_predict_def
        LasagneNetwork_evaluate_def LasagneNetwork_save_weights_def LasagneNetwork_load_weights_def
        LasagneNetwork_print_layers_def
        KerasNetwork_train_def KerasNetwork_validate_def KerasNetwork_predict_def
        KerasNetwork_evaluate_def KerasNetwork_save_weights_def KerasNetwork_load_weights_def
        KerasNetwork_print_layers_def Let_def split: prod.splits sum.splits)
qed

section \<open>\<^verbatim>\<open>EvalNut\<close>\<close>

text \<open>
  \<^verbatim>\<open>PredictNut\<close> handles its batches one by one, so feeding it the batches one at a
  time, as the lazy pipeline does, is running it on the list.
\<close>

lemma PredictNut_Cons:
  "PredictNut func flatten (batch # batches) x =
     (case PredictNut func flatten [batch] x of
        ((ys, Some e), x') \<Rightarrow> ((ys, Some e), x')
      | ((ys, None), x') \<Rightarrow> yield_first ys (PredictNut func flatten batches x'))"
  by (simp add: yield_first_def split: prod.splits sum.splits option.splits)

lemma accumulate_batch_targets:
  "accumulate targetcol batch targets =
     (case batch_targets targetcol batch of
        Inl e \<Rightarrow> Inl e
      | Inr rows \<Rightarrow> Inr (py_slice_to batch targetcol, targets @ rows))"
  by (simp add: accumulate_def batch_targets_def split: sum.splits)

lemma accumulated_Nil: "accumulated func predcol targetcol [] x = (Inr ([], []), x)"
  by (simp add: accumulated_def)

lemma accumulated_Cons:
  "(accumulated func predcol targetcol (batch # batches) x = (Inr (tls, ps), x')) =
   (\<exists>rows pb x1 col tls' ps'.
      batch_targets targetcol batch = Inr rows \<and>
      func (py_slice_to batch targetcol) x = (Inr pb, x1) \<and>
      Get predcol pb = Inr col \<and>
      accumulated func predcol targetcol batches x1 = (Inr (tls', ps'), x') \<and>
      tls = rows @ tls' \<and> ps = Flatten col @ ps')"
  by (auto simp add: accumulated_def yield_first_def split: sum.splits prod.splits option.splits)

lemma collect_preds_Cons:
  "(collect_preds (PredictNut func False) predcol targetcol (batch # batches) targets x
      = (Inr (ts, ps), x')) =
   (\<exists>rows pb x1 col ps'.
      batch_targets targetcol batch = Inr rows \<and>
      func (py_slice_to batch targetcol) x = (Inr pb, x1) \<and>
      Get predcol pb = Inr col \<and>
      collect_preds (PredictNut func False) predcol targetcol batches (targets @ rows) x1
        = (Inr (ts, ps'), x') \<and>
      ps = Flatten col @ ps')"
  by (auto simp add: accumulate_batch_targets yield_first_def split: sum.splits prod.splits option.splits)

text \<open>
  The lazy pipeline, which extends \<^verbatim>\<open>targets\<close> batch by batch between the
  predictions, ends with the targets and the predictions of all batches.
\<close>

lemma collect_preds_accumulated:
  "(collect_preds (PredictNut func False) predcol targetcol batches targets x = (Inr (ts, ps), x')) =
   (\<exists>tls. accumulated func predcol targetcol batches x = (Inr (tls, ps), x') \<and> ts = targets @ tls)"
proof (induction batches arbitrary: targets x ts ps)
  case Nil
  show ?case by (auto simp add: accumulated_Nil)
next
  case (Cons batch batches)
  show ?case
    unfolding collect_preds_Cons accumulated_Cons Cons.IH
    by auto
qed

lemma collect_preds_start:
  "(collect_preds (PredictNut func False) predcol targetcol batches [] x = (Inr tp, x')) =
   (accumulated func predcol targetcol batches x = (Inr tp, x'))"
  by (cases tp) (simp add: collect_preds_accumulated)

text \<open>
  \<open>map_err\<close> returns a list exactly when the function returns on every element: the
  list holds one result per element, in order.
\<close>

lemma map_err_Inr_iff:
  "(map_err f xs = Inr ys) = list_all2 (\<lambda>x y. f x = Inr y) xs ys"
proof (induction xs arbitrary: ys)
  case Nil
  show ?case by auto
next
  case (Cons x xs)
  show ?case
    by (auto simp add: list_all2_Cons1 Cons.IH [symmetric] split: sum.splits)
qed

lemma EvalNut_tail:
  "(case vstack np targets of
      Inl e \<Rightarrow> (Inl e, network, x')
    | Inr targets1 \<Rightarrow>
        (case vstack np preds of
           Inl e \<Rightarrow> (Inl e, network, x')
         | Inr preds1 \<Rightarrow>
             (case astype_float np targets1 of
                Inl e \<Rightarrow> (Inl e, network, x')
              | Inr targets2 \<Rightarrow>
                  (case map_err (\<lambda>m. compute m targets2 preds1) metrics of
                     Inl e \<Rightarrow> (Inl e, network, x')
                   | Inr results \<Rightarrow>
                       (if length results > 1
                        then (Inr (Results results), network, x')
                        else (case results of
                                [] \<Rightarrow> (Inl IndexError, network, x')
                              | r # _ \<Rightarrow> (Inr (Result r), network, x')))))))
   = (case stacked np targets preds of
        Inl e \<Rightarrow> (Inl e, network, x')
      | Inr (full_targets, full_preds) \<Rightarrow>
          (case map_err (\<lambda>metric. compute metric full_targets full_preds) metrics of
             Inl e \<Rightarrow> (Inl e, network, x')
           | Inr [] \<Rightarrow> (Inl IndexError, network, x')
           | Inr [r] \<Rightarrow> (Inr (Result r), network, x')
           | Inr results \<Rightarrow> (Inr (Results results), network, x')))"
  by (simp add: stacked_def split: sum.splits list.splits)

text \<open>
  Claim C4. For a network whose \<^verbatim>\<open>predict(flatten=False)\<close> returns
  \<^verbatim>\<open>PredictNut(func, False)\<close>, as both wrappers do, and for every list of batches,
  \<^verbatim>\<open>EvalNut\<close> returns a result exactly when the evaluation in three steps does
  (all targets and predictions accumulated, each list stacked into one array, every
  metric computed once on the two full arrays), and then it is the same result, with the
  same state of the framework's model.
\<close>

theorem EvalNut_refines_spec:
  assumes pred: "predict network False x = (Inr (PredictNut func False), network, x)"
  shows "(EvalNut np predict metrics compute predcol targetcol batches network x = (Inr res, n', x')) =
         (EvalNut_spec np func metrics compute predcol targetcol batches network x = (Inr res, n', x'))"
proof -
  obtain r1 x1 where c: "collect_preds (PredictNut func False) predcol targetcol batches [] x = (r1, x1)"
    by (cases "collect_preds (PredictNut func False) predcol targetcol batches [] x")
  obtain r2 x2 where a: "accumulated func predcol targetcol batches x = (r2, x2)"
    by (cases "accumulated func predcol targetcol batches x")
  show ?thesis
  proof (cases r1)
    case (Inl e)
    have "\<exists>e2. r2 = Inl e2"
    proof (cases r2)
      case (Inr tp)
      with a have "collect_preds (PredictNut func False) predcol targetcol batches [] x = (Inr tp, x2)"
        by (simp add: collect_preds_start)
      with c Inl show ?thesis by simp
    qed simp
    then show ?thesis
      using pred c a Inl by (auto simp add: EvalNut_def EvalNut_spec_def)
  next
    case (Inr tp)
    with c have a': "accumulated func predcol targetcol batches x = (Inr tp, x1)"
      by (simp add: collect_preds_start)
    obtain targets preds where tp: "tp = (targets, preds)"
      by (cases tp)
    show ?thesis
      using pred c a' Inr tp
      by (simp add: EvalNut_def EvalNut_spec_def EvalNut_tail)
  qed
qed

theorem EvalNut_refines_spec_witness:
  "KerasNetwork_predict
     (KerasNetwork_init example_model None :: (real, int, unit, int, string list) keras_network)
     False []
   = (Inr (PredictNut (predict_on_batch example_model) False), KerasNetwork_init example_model None, []) \<and>
   EvalNut example_numpy KerasNetwork_predict [example_metric] (\<lambda>m t p. Inr (m t p)) None (- 1)
     [[Seq [Scalar 1, Scalar 2], Seq [Scalar 1, Scalar 0]], [Seq [Scalar 3], Seq [Scalar 3]]]
     (KerasNetwork_init example_model None :: (real, int, unit, int, string list) keras_network) []
   = (Inr (Result 1), KerasNetwork_init example_model None, [])"
proof -
  let ?N = "KerasNetwork_init example_model None :: (real, int, unit, int, string list) keras_network"
  let ?batches = "[[Seq [Scalar 1, Scalar 2], Seq [Scalar 1, Scalar 0]], [Seq [Scalar 3], Seq [Scalar 3]]]
    :: int pyval list list"
  have h: "KerasNetwork_predict ?N False []
      = (Inr (PredictNut (predict_on_batch example_model) False), ?N, [])"
    by (simp add: KerasNetwork_predict_def KerasNetwork_init_def Network_init_def
        network.defs keras_network.defs)
  have s: "EvalNut_spec example_numpy (predict_on_batch example_model) [example_metric]
      (\<lambda>m t p. Inr (m t p)) None (- 1) ?batches ?N [] = (Inr (Result 1), ?N, [])"
    by (simp add: EvalNut_spec_def accumulated_def batch_targets_def stacked_def py_index_def
        py_slice_to_def yield_first_def example_model_def example_numpy_def example_metric_def)
  from s have e: "EvalNut example_numpy KerasNetwork_predict [example_metric]
      (\<lambda>m t p. Inr (m t p)) None (- 1) ?batches ?N [] = (Inr (Result 1), ?N, [])"
    by (simp only: EvalNut_refines_spec [where predict = KerasNetwork_predict and network = "?N"
          and x = "[]" and func = "predict_on_batch example_model", OF h])
  from h e show ?thesis
    by blast
qed

text \<open>
  Claim C5. With \<^verbatim>\<open>targetcol=-1\<close> and a batch that is not empty and whose last
  element is an array, \<^verbatim>\<open>accumulate\<close> appends the rows of that last element to
  \<^verbatim>\<open>targets\<close> and returns the batch without it, and the prediction function is
  called with exactly these preceding elements.
\<close>

theorem accumulate_default_targetcol:
  assumes "batch \<noteq> []" and "last batch = Seq rows"
  shows "accumulate (- 1) batch targets = Inr (butlast batch, targets @ rows) \<and>
         collect_preds (PredictNut func False) predcol (- 1) [batch] targets x =
           (case func (butlast batch) x of
              (Inl e, x') \<Rightarrow> (Inl e, x')
            | (Inr pred_batch, x') \<Rightarrow>
                (case Get predcol pred_batch of
                   Inl e \<Rightarrow> (Inl e, x')
                 | Inr col \<Rightarrow> (Inr (targets @ rows, Flatten col), x')))"
proof -
  from assms(1) have idx: "py_index batch (- 1) = Inr (last batch)"
    by (cases batch rule: rev_cases) (auto simp add: py_index_def nth_append)
  from assms(1) have sl: "py_slice_to batch (- 1) = butlast batch"
    by (cases batch rule: rev_cases) (auto simp add: py_slice_to_def)
  have acc: "accumulate (- 1) batch targets = Inr (butlast batch, targets @ rows)"
    by (simp add: accumulate_def idx sl assms(2))
  show ?thesis
    by (simp add: acc yield_first_def split: prod.splits sum.splits)
qed

theorem accumulate_default_targetcol_witness:
  "[Seq [Scalar 1, Scalar 2], Seq [Scalar 1, Scalar (0::int)]] \<noteq> [] \<and>
   last [Seq [Scalar 1, Scalar 2], Seq [Scalar 1, Scalar (0::int)]] = Seq [Scalar 1, Scalar 0] \<and>
   accumulate (- 1) [Seq [Scalar 1, Scalar 2], Seq [Scalar 1, Scalar (0::int)]] [Scalar 7]
     = Inr ([Seq [Scalar 1, Scalar 2]], [Scalar 7, Scalar 1, Scalar 0])"
proof -
  have h1: "[Seq [Scalar 1, Scalar 2], Seq [Scalar 1, Scalar (0::int)]] \<noteq> []"
    by simp
  have h2: "last [Seq [Scalar 1, Scalar 2], Seq [Scalar 1, Scalar (0::int)]] = Seq [Scalar 1, Scalar 0]"
    by simp
  from accumulate_default_targetcol [OF h1 h2, of "[Scalar 7]"]
  have "accumulate (- 1) [Seq [Scalar 1, Scalar 2], Seq [Scalar 1, Scalar (0::int)]] [Scalar 7]
     = Inr (butlast [Seq [Scalar 1, Scalar 2], Seq [Scalar 1, Scalar (0::int)]],
            [Scalar 7] @ [Scalar 1, Scalar 0])"
    by (rule conjunct1)
  then have c: "accumulate (- 1) [Seq [Scalar 1, Scalar 2], Seq [Scalar 1, Scalar (0::int)]] [Scalar 7]
     = Inr ([Seq [Scalar 1, Scalar 2]], [Scalar 7, Scalar 1, Scalar 0])"
    by simp
  from h1 h2 c show ?thesis
    by blast
qed

section \<open>The random splitter\<close>

lemma shuffle_Nil: "shuffle draw [] g = ([], g)"
  by (subst shuffle.simps) simp

lemma shuffle_step:
  assumes "xs \<noteq> []" and "draw g = (r, g')"
  shows "shuffle draw xs g =
    (xs ! (r mod length xs)
       # fst (shuffle draw (take (r mod length xs) xs @ drop (Suc (r mod length xs)) xs) g'),
     snd (shuffle draw (take (r mod length xs) xs @ drop (Suc (r mod length xs)) xs) g'))"
  using assms by (subst shuffle.simps) (simp add: Let_def split: prod.splits)

lemma shuffle_mset: "mset (fst (shuffle draw xs g)) = mset xs"
proof (induction draw xs g rule: shuffle.induct)
  case (1 draw xs g)
  show ?case
  proof (cases "xs = []")
    case True
    then show ?thesis by (simp add: shuffle_Nil)
  next
    case False
    obtain r g' where d: "draw g = (r, g')"
      by (cases "draw g")
    let ?j = "r mod length xs"
    from False have j: "?j < length xs"
      by simp
    have ih: "mset (fst (shuffle draw (take ?j xs @ drop (Suc ?j) xs) g'))
        = mset (take ?j xs @ drop (Suc ?j) xs)"
      using "1.IH" [OF False d [symmetric] refl] .
    have "mset xs = mset (take ?j xs @ xs ! ?j # drop (Suc ?j) xs)"
      using id_take_nth_drop [OF j] by simp
    then have "mset xs = add_mset (xs ! ?j) (mset (take ?j xs @ drop (Suc ?j) xs))"
      by simp
    with ih show ?thesis
      by (simp add: shuffle_step [where draw = draw and g = g, OF False d])
  qed
qed

lemma shuffle_set: "set (fst (shuffle draw xs g)) = set xs"
  using shuffle_mset [of draw xs g] by (metis set_mset_mset)

lemma shuffle_length: "length (fst (shuffle draw xs g)) = length xs"
  using shuffle_mset [of draw xs g] by (metis size_mset)


lemma take_groups_concat:
  "take_groups n groups = (split, rest) \<Longrightarrow> split @ concat rest = concat groups"
proof (induction groups arbitrary: n split rest)
  case Nil
  then show ?case by simp
next
  case (Cons grp groups)
  show ?case
  proof (cases "n = 0")
    case True
    with Cons.prems show ?thesis by simp
  next
    case False
    obtain s r where t: "take_groups (n - length grp) groups = (s, r)"
      by (cases "take_groups (n - length grp) groups")
    from Cons.IH [OF t] Cons.prems False t show ?thesis
      by auto
  qed
qed

lemma fill_buckets_concat:
  "ns \<noteq> [] \<Longrightarrow> concat (fill_buckets ns groups) = concat groups"
proof (induction ns groups rule: fill_buckets.induct)
  case (1 groups)
  then show ?case by simp
next
  case (2 n groups)
  show ?case by simp
next
  case (3 n m ms groups)
  obtain s r where t: "take_groups n groups = (s, r)"
    by (cases "take_groups n groups")
  from "3.IH" [OF t [symmetric]] take_groups_concat [OF t] t show ?case
    by simp
qed

lemma fill_buckets_length: "length (fill_buckets ns groups) = length ns"
  by (induction ns groups rule: fill_buckets.induct) (auto split: prod.splits)


lemma concat_singletons_length:
  "\<forall>grp\<in>set groups. length grp = 1 \<Longrightarrow> length (concat groups) = length groups"
  by (induction groups) auto

lemma take_groups_singletons:
  "\<forall>grp\<in>set groups. length grp = 1 \<Longrightarrow>
   take_groups n groups = (concat (take n groups), drop n groups)"
proof (induction groups arbitrary: n)
  case Nil
  show ?case by simp
next
  case (Cons grp groups)
  show ?case
  proof (cases n)
    case 0
    then show ?thesis by simp
  next
    case (Suc k)
    with Cons show ?thesis by simp
  qed
qed

lemma fill_buckets_sizes:
  "\<forall>grp\<in>set groups. length grp = 1 \<Longrightarrow> ns \<noteq> [] \<Longrightarrow>
   sum_list (butlast ns) \<le> length groups \<Longrightarrow>
   map length (fill_buckets ns groups) = butlast ns @ [length groups - sum_list (butlast ns)]"
proof (induction ns groups rule: fill_buckets.induct)
  case (1 groups)
  then show ?case by simp
next
  case (2 n groups)
  then show ?case by (simp add: concat_singletons_length)
next
  case (3 n m ms groups)
  have t: "take_groups n groups = (concat (take n groups), drop n groups)"
    using "3.prems"(1) by (rule take_groups_singletons)
  have single: "\<forall>grp\<in>set (drop n groups). length grp = 1"
    using "3.prems"(1) by (auto dest: in_set_dropD)
  have single': "\<forall>grp\<in>set (take n groups). length grp = 1"
    using "3.prems"(1) by (auto dest: in_set_takeD)
  from "3.prems"(3) have n: "n \<le> length groups"
    by simp
  from "3.prems"(3) have rest: "sum_list (butlast (m # ms)) \<le> length (drop n groups)"
    by simp
  have ih: "map length (fill_buckets (m # ms) (drop n groups))
      = butlast (m # ms) @ [length (drop n groups) - sum_list (butlast (m # ms))]"
    using "3.IH" [OF t [symmetric] single _ rest] by simp
  have len: "length (concat (take n groups)) = n"
    using concat_singletons_length [OF single'] n by simp
  show ?case
    using t ih len by simp
qed

lemma bucket_size_le: "0 \<le> r \<Longrightarrow> of_nat (bucket_size n r) \<le> r * of_nat n"
  by (simp add: bucket_size_def)

lemma bucket_size_whole:
  "0 \<le> r \<Longrightarrow> r * of_nat n \<in> \<int> \<Longrightarrow> of_nat (bucket_size n r) = r * of_nat n"
  by (auto simp add: bucket_size_def Ints_def)

lemma sum_bucket_sizes_le:
  "\<forall>r\<in>set rs. 0 \<le> r \<Longrightarrow>
   (of_nat (sum_list (map (bucket_size n) rs)) :: rat) \<le> sum_list rs * of_nat n"
proof (induction rs)
  case Nil
  show ?case by simp
next
  case (Cons r rs)
  then have "(of_nat (bucket_size n r) :: rat) \<le> r * of_nat n"
    and "(of_nat (sum_list (map (bucket_size n) rs)) :: rat) \<le> sum_list rs * of_nat n"
    by (simp_all add: bucket_size_le)
  then show ?case
    by (simp add: algebra_simps)
qed

lemma sum_bucket_sizes_whole:
  "\<forall>r\<in>set rs. 0 \<le> r \<and> r * of_nat n \<in> \<int> \<Longrightarrow>
   (of_nat (sum_list (map (bucket_size n) rs)) :: rat) = sum_list rs * of_nat n"
proof (induction rs)
  case Nil
  show ?case by simp
next
  case (Cons r rs)
  then show ?case
    by (simp add: bucket_size_whole algebra_simps)
qed

lemma sum_butlast_le:
  fixes rs :: "rat list"
  assumes "\<forall>r\<in>set rs. 0 \<le> r"
  shows "sum_list (butlast rs) \<le> sum_list rs"
proof (cases "rs = []")
  case True
  then show ?thesis by simp
next
  case False
  then have "rs = butlast rs @ [last rs]"
    by simp
  then have "sum_list rs = sum_list (butlast rs) + last rs"
    by (metis sum_list.Cons sum_list.Nil sum_list_append add.right_neutral)
  moreover from False assms have "0 \<le> last rs"
    by simp
  ultimately show ?thesis
    by simp
qed

lemma butlast_sizes_le:
  assumes "\<forall>r\<in>set rs. 0 \<le> r" and "sum_list rs = 1"
  shows "sum_list (butlast (map (bucket_size n) rs)) \<le> n"
proof -
  have nonneg: "\<forall>r\<in>set (butlast rs). 0 \<le> r"
    using assms(1) by (auto dest: in_set_butlastD)
  have "(of_nat (sum_list (map (bucket_size n) (butlast rs))) :: rat)
      \<le> sum_list (butlast rs) * of_nat n"
    using nonneg by (rule sum_bucket_sizes_le)
  also have "\<dots> \<le> sum_list rs * of_nat n"
    using sum_butlast_le [OF assms(1)] by (simp add: mult_right_mono)
  also have "\<dots> = of_nat n"
    using assms(2) by simp
  finally show ?thesis
    by (simp add: map_butlast)
qed

lemma ratios_of_valid: "ratios_of ratio = Inr rs \<Longrightarrow> sum_list rs = 1 \<and> rs \<noteq> []"
  by (cases ratio) (auto split: if_splits)

lemma distinct_concat_disjoint:
  "distinct (concat xss) \<Longrightarrow> i < j \<Longrightarrow> j < length xss \<Longrightarrow> set (xss ! i) \<inter> set (xss ! j) = {}"
proof (induction xss arbitrary: i j)
  case Nil
  then show ?case by simp
next
  case (Cons xs xss)
  show ?case
  proof (cases i)
    case 0
    with Cons.prems obtain j' where j': "j = Suc j'" "j' < length xss"
      by (cases j) auto
    then have "xss ! j' \<in> set xss"
      by simp
    then have "set (xss ! j') \<subseteq> \<Union> (set ` set xss)"
      by blast
    with Cons.prems(1) 0 j' show ?thesis
      by auto
  next
    case (Suc i')
    with Cons.prems obtain j' where j': "j = Suc j'" "i' < j'" "j' < length xss"
      by (cases j) auto
    with Cons.IH [of i' j'] Cons.prems(1) Suc show ?thesis
      by simp
  qed
qed

lemma mset_concat_cong: "mset xss = mset yss \<Longrightarrow> mset (concat xss) = mset (concat yss)"
proof -
  assume a: "mset xss = mset yss"
  have "mset (concat xss) = sum_mset (image_mset mset (mset xss))" for xss :: "'a list list"
    by (induction xss) auto
  with a show ?thesis
    by simp
qed

lemma sum_list_butlast_last:
  fixes ns :: "nat list"
  shows "ns \<noteq> [] \<Longrightarrow> sum_list ns = sum_list (butlast ns) + last ns"
  by (induction ns) auto

lemma SplitRandom_None:
  assumes "ratios_of ratio = Inr rs"
  shows "SplitRandom ratio None draw samples g =
    (Inr (fill_buckets (map (bucket_size (length samples)) rs)
            (fst (shuffle draw (map (\<lambda>s. [s]) samples) g))),
     snd (shuffle draw (map (\<lambda>s. [s]) samples) g))"
  using assms by (simp add: SplitRandom_def Let_def split: prod.splits)

lemma unconstrained_sizes:
  assumes valid: "ratios_of ratio = Inr rs" and nonneg: "\<forall>r\<in>set rs. 0 \<le> r"
  shows "map length (fill_buckets (map (bucket_size (length samples)) rs)
            (fst (shuffle draw (map (\<lambda>s. [s]) samples) g)))
         = butlast (map (bucket_size (length samples)) rs)
           @ [length samples - sum_list (butlast (map (bucket_size (length samples)) rs))]"
proof -
  let ?sh = "fst (shuffle draw (map (\<lambda>s. [s]) samples) g)"
  from ratios_of_valid [OF valid] have one: "sum_list rs = 1" and ne: "rs \<noteq> []"
    by simp_all
  have single: "\<forall>grp\<in>set ?sh. length grp = 1"
    by (auto simp add: shuffle_set)
  have len: "length ?sh = length samples"
    by (simp add: shuffle_length)
  have le: "sum_list (butlast (map (bucket_size (length samples)) rs)) \<le> length ?sh"
    using butlast_sizes_le [OF nonneg one] len by simp
  from ne have ne': "map (bucket_size (length samples)) rs \<noteq> []"
    by simp
  from fill_buckets_sizes [OF single ne' le] len show ?thesis
    by simp
qed

lemma unconstrained_sizes_whole:
  assumes valid: "ratios_of ratio = Inr rs" and nonneg: "\<forall>r\<in>set rs. 0 \<le> r"
    and whole: "\<forall>r\<in>set rs. r * of_nat (length samples) \<in> \<int>"
  shows "map length (fill_buckets (map (bucket_size (length samples)) rs)
            (fst (shuffle draw (map (\<lambda>s. [s]) samples) g)))
         = map (bucket_size (length samples)) rs"
proof -
  let ?n = "length samples"
  let ?ns = "map (bucket_size ?n) rs"
  from ratios_of_valid [OF valid] have one: "sum_list rs = 1" and ne: "rs \<noteq> []"
    by simp_all
  from nonneg whole have "\<forall>r\<in>set rs. 0 \<le> r \<and> r * of_nat ?n \<in> \<int>"
    by simp
  then have "(of_nat (sum_list ?ns) :: rat) = sum_list rs * of_nat ?n"
    by (rule sum_bucket_sizes_whole)
  with one have "(of_nat (sum_list ?ns) :: rat) = of_nat ?n"
    by simp
  then have total: "sum_list ?ns = ?n"
    by (simp only: of_nat_eq_iff)
  from ne have ne': "?ns \<noteq> []"
    by simp
  from sum_list_butlast_last [OF ne'] total
  have "?n - sum_list (butlast ?ns) = last ?ns"
    by simp
  with unconstrained_sizes [OF valid nonneg, of samples draw g] ne' show ?thesis
    by simp
qed

text \<open>
  Claim C6, amended. Without a constraint and with valid ratios (not negative, summing
  up to one), \<^verbatim>\<open>SplitRandom\<close> returns one partition per ratio; together the
  partitions hold exactly the input elements, each as often as the input does; they are
  pairwise disjoint when no element is repeated in the input; and each partition has its
  ratio times \<open>n\<close> elements whenever that product is a whole number for every ratio.
\<close>

theorem SplitRandom_partition:
  assumes valid: "ratios_of ratio = Inr rs" and nonneg: "\<forall>r\<in>set rs. 0 \<le> r"
  shows "\<exists>parts g'.
     SplitRandom ratio (None :: ('a \<Rightarrow> unit) option) draw samples g = (Inr parts, g') \<and>
     length parts = length rs \<and>
     mset (concat parts) = mset samples \<and>
     (distinct samples \<longrightarrow>
        (\<forall>i j. i < j \<and> j < length parts \<longrightarrow> set (parts ! i) \<inter> set (parts ! j) = {})) \<and>
     ((\<forall>r\<in>set rs. r * of_nat (length samples) \<in> \<int>) \<longrightarrow>
        (\<forall>i<length parts. of_nat (length (parts ! i)) = rs ! i * of_nat (length samples)))"
proof -
  let ?n = "length samples"
  let ?ns = "map (bucket_size ?n) rs"
  let ?sh = "fst (shuffle draw (map (\<lambda>s. [s]) samples) g)"
  let ?parts = "fill_buckets ?ns ?sh"
  from ratios_of_valid [OF valid] have ne: "rs \<noteq> []"
    by simp
  have run: "SplitRandom ratio (None :: ('a \<Rightarrow> unit) option) draw samples g
      = (Inr ?parts, snd (shuffle draw (map (\<lambda>s. [s]) samples) g))"
    by (rule SplitRandom_None [OF valid])
  have len: "length ?parts = length rs"
    by (simp add: fill_buckets_length)
  have "concat ?parts = concat ?sh"
    using ne by (simp add: fill_buckets_concat)
  moreover have "mset (concat ?sh) = mset (concat (map (\<lambda>s. [s]) samples))"
    by (rule mset_concat_cong) (rule shuffle_mset)
  ultimately have perm: "mset (concat ?parts) = mset samples"
    by simp
  have disj: "set (?parts ! i) \<inter> set (?parts ! j) = {}"
    if "distinct samples" "i < j" "j < length ?parts" for i j
  proof -
    from perm that(1) have "distinct (concat ?parts)"
      by (metis mset_eq_imp_distinct_iff)
    then show ?thesis
      using that(2,3) by (rule distinct_concat_disjoint)
  qed
  have sizes: "of_nat (length (?parts ! i)) = rs ! i * of_nat ?n"
    if whole: "\<forall>r\<in>set rs. r * of_nat ?n \<in> \<int>" and i: "i < length ?parts" for i
  proof -
    from i len have i': "i < length rs"
      by simp
    have "map length ?parts = ?ns"
      by (rule unconstrained_sizes_whole [OF valid nonneg whole])
    then have "map length ?parts ! i = ?ns ! i"
      by simp
    with i i' have "length (?parts ! i) = bucket_size ?n (rs ! i)"
      by simp
    moreover from i' nonneg whole have "0 \<le> rs ! i" "rs ! i * of_nat ?n \<in> \<int>"
      by simp_all
    ultimately show ?thesis
      by (simp add: bucket_size_whole)
  qed
  from run len perm disj sizes show ?thesis
    by blast
qed

theorem SplitRandom_partition_witness:
  "ratios_of (Ratio (1/2)) = Inr [1/2, 1/2] \<and>
   list_all (\<lambda>r. 0 \<le> r) [1/2, 1/2 :: rat] \<and>
   (\<exists>parts g'.
      SplitRandom (Ratio (1/2)) (None :: (nat \<Rightarrow> unit) option) example_draw [10, 20, 30, 40] 0
        = (Inr parts, g') \<and>
      length parts = 2 \<and> mset (concat parts) = mset [10, 20, 30, 40] \<and>
      set (parts ! 0) \<inter> set (parts ! 1) = {} \<and>
      length (parts ! 0) = 2 \<and> length (parts ! 1) = 2)"
proof -
  let ?samples = "[10, 20, 30, 40] :: nat list"
  let ?rs = "[1/2, 1/2] :: rat list"
  have h1: "ratios_of (Ratio (1/2)) = Inr ?rs"
    by simp
  have h2: "\<forall>r\<in>set ?rs. 0 \<le> r"
    by simp
  have whole: "\<forall>r\<in>set ?rs. r * of_nat (length ?samples) \<in> \<int>"
    by simp
  have dist: "distinct ?samples"
    by simp
  from SplitRandom_partition [OF h1 h2, where draw = example_draw and samples = ?samples and g = 0]
  obtain parts g' where run:
    "SplitRandom (Ratio (1/2)) (None :: (nat \<Rightarrow> unit) option) example_draw ?samples 0
        = (Inr parts, g')"
    and len: "length parts = length ?rs"
    and perm: "mset (concat parts) = mset ?samples"
    and disj: "distinct ?samples \<longrightarrow>
        (\<forall>i j. i < j \<and> j < length parts \<longrightarrow> set (parts ! i) \<inter> set (parts ! j) = {})"
    and sizes: "(\<forall>r\<in>set ?rs. r * of_nat (length ?samples) \<in> \<int>) \<longrightarrow>
        (\<forall>i<length parts. of_nat (length (parts ! i)) = ?rs ! i * of_nat (length ?samples))"
    by blast
  from len have len2: "length parts = 2"
    by simp
  from disj dist len2 have d: "set (parts ! 0) \<inter> set (parts ! 1) = {}"
    by simp
  from sizes whole have all: "\<forall>i<length parts. (of_nat (length (parts ! i)) :: rat)
      = ?rs ! i * of_nat (length ?samples)"
    by blast
  from all len2 have "(of_nat (length (parts ! 0)) :: rat) = ?rs ! 0 * of_nat (length ?samples)"
    by simp
  then have "(of_nat (length (parts ! 0)) :: rat) = of_nat 2"
    by simp
  then have l0: "length (parts ! 0) = 2"
    by (simp only: of_nat_eq_iff)
  from all len2 have "(of_nat (length (parts ! 1)) :: rat) = ?rs ! 1 * of_nat (length ?samples)"
    by simp
  then have "(of_nat (length (parts ! 1)) :: rat) = of_nat 2"
    by simp
  then have l1: "length (parts ! 1) = 2"
    by (simp only: of_nat_eq_iff)
  have h2': "list_all (\<lambda>r. 0 \<le> r) ?rs"
    by simp
  from h1 h2' run len2 perm d l0 l1 show ?thesis
    by blast
qed

text \<open>
  Claim C6 as stated fails where a ratio times \<open>n\<close> is not a whole number: half of
  three elements is not the size of any partition.
\<close>

theorem SplitRandom_size_not_ratio:
  "fst (SplitRandom (Ratio (1/2)) (None :: (nat \<Rightarrow> unit) option) example_draw [0, 1, 2] 0)
     = Inr [[0], [2, 1]] \<and>
   (of_nat (length [0::nat]) :: rat) \<noteq> 1/2 * of_nat (length [0::nat, 1, 2])"
  by code_simp

lemma same_draws_step:
  assumes same: "\<forall>k. draws d1 k g1 = draws d2 k g2"
    and s1: "d1 g1 = (r1, g1')" and s2: "d2 g2 = (r2, g2')"
  shows "r1 = r2 \<and> (\<forall>k. draws d1 k g1' = draws d2 k g2')"
proof
  from same have "draws d1 (Suc 0) g1 = draws d2 (Suc 0) g2"
    by blast
  with s1 s2 show "r1 = r2"
    by simp
  show "\<forall>k. draws d1 k g1' = draws d2 k g2'"
  proof
    fix k
    from same have "draws d1 (Suc k) g1 = draws d2 (Suc k) g2"
      by blast
    with s1 s2 show "draws d1 k g1' = draws d2 k g2'"
      by simp
  qed
qed

lemma shuffle_same_draws:
  "\<forall>k. draws d1 k g1 = draws d2 k g2 \<Longrightarrow> fst (shuffle d1 xs g1) = fst (shuffle d2 xs g2)"
proof (induction d1 xs g1 arbitrary: g2 rule: shuffle.induct)
  case (1 d1 xs g1)
  show ?case
  proof (cases "xs = []")
    case True
    then show ?thesis by (simp add: shuffle_Nil)
  next
    case False
    obtain r1 g1' where s1: "d1 g1 = (r1, g1')"
      by (cases "d1 g1")
    obtain r2 g2' where s2: "d2 g2 = (r2, g2')"
      by (cases "d2 g2")
    from same_draws_step [OF "1.prems" s1 s2]
    have r: "r1 = r2" and next_same: "\<forall>k. draws d1 k g1' = draws d2 k g2'"
      by simp_all
    have "fst (shuffle d1 (take (r1 mod length xs) xs @ drop (Suc (r1 mod length xs)) xs) g1')
        = fst (shuffle d2 (take (r1 mod length xs) xs @ drop (Suc (r1 mod length xs)) xs) g2')"
      using "1.IH" [OF False s1 [symmetric] refl next_same] .
    then show ?thesis
      using r
      by (simp add: shuffle_step [where draw = d1 and g = g1, OF False s1]
          shuffle_step [where draw = d2 and g = g2, OF False s2])
  qed
qed

lemma SplitRandom_splits:
  "fst (SplitRandom ratio constraint draw samples g) =
     (case ratios_of ratio of
        Inl e \<Rightarrow> Inl e
      | Inr ratios \<Rightarrow>
          Inr (fill_buckets (map (bucket_size (length samples)) ratios)
                 (fst (shuffle draw
                        (case constraint of
                           None \<Rightarrow> map (\<lambda>s. [s]) samples
                         | Some key \<Rightarrow> group_by key samples) g))))"
  by (simp add: SplitRandom_def Let_def split: sum.splits prod.splits)

lemma example_splits_0:
  "fst (SplitRandom (Ratio (7/10)) (None :: (nat \<Rightarrow> unit) option) example_draw [0..<10] 0)
     = Inr [[0, 4, 3, 9, 7, 5, 6], [2, 1, 8]]"
  by code_simp

lemma example_splits_1:
  "fst (SplitRandom (Ratio (7/10)) (None :: (nat \<Rightarrow> unit) option) example_draw [0..<10] 1)
     = Inr [[1, 9, 4, 5, 8, 3, 7], [6, 2, 0]]"
  by code_simp

text \<open>
  Claim C7. The split is determined by the numbers the random source draws: two sources
  that draw the same numbers (sources seeded identically) give equal splits, for every
  input, ratio and constraint; and two seeds of one source give different splits of
  \<open>[0..<10]\<close>.
\<close>

theorem SplitRandom_seed:
  assumes same: "\<forall>k. draws d1 k g1 = draws d2 k g2"
  shows "fst (SplitRandom ratio constraint d1 samples g1)
           = fst (SplitRandom ratio constraint d2 samples g2) \<and>
         fst (SplitRandom (Ratio (7/10)) (None :: (nat \<Rightarrow> unit) option) example_draw [0..<10] 0)
           \<noteq> fst (SplitRandom (Ratio (7/10)) (None :: (nat \<Rightarrow> unit) option) example_draw [0..<10] 1)"
proof
  show "fst (SplitRandom ratio constraint d1 samples g1)
      = fst (SplitRandom ratio constraint d2 samples g2)"
    by (simp add: SplitRandom_splits shuffle_same_draws [OF same] cong: sum.case_cong)
  show "fst (SplitRandom (Ratio (7/10)) (None :: (nat \<Rightarrow> unit) option) example_draw [0..<10] 0)
      \<noteq> fst (SplitRandom (Ratio (7/10)) (None :: (nat \<Rightarrow> unit) option) example_draw [0..<10] 1)"
    by (simp only: example_splits_0 example_splits_1) simp
qed

lemma counting_draw_same:
  "draws example_draw k g = draws counting_draw k (g, calls)"
  by (induction k arbitrary: g calls) (simp_all add: example_draw_def counting_draw_def)

theorem SplitRandom_seed_witness:
  "(\<forall>k. draws example_draw k 0 = draws counting_draw k (0, 0)) \<and>
   fst (SplitRandom (Ratio (7/10)) (None :: (nat \<Rightarrow> unit) option) example_draw [0..<10] 0)
     = fst (SplitRandom (Ratio (7/10)) (None :: (nat \<Rightarrow> unit) option) counting_draw [0..<10] (0, 0)) \<and>
   fst (SplitRandom (Ratio (7/10)) (None :: (nat \<Rightarrow> unit) option) counting_draw [0..<10] (0, 0))
     = Inr [[0, 4, 3, 9, 7, 5, 6], [2, 1, 8]]"
proof -
  have h: "\<forall>k. draws example_draw k 0 = draws counting_draw k (0, 0)"
    by (simp add: counting_draw_same)
  from SplitRandom_seed [OF h, of "Ratio (7/10)" "None :: (nat \<Rightarrow> unit) option" "[0..<10]"]
  have e: "fst (SplitRandom (Ratio (7/10)) (None :: (nat \<Rightarrow> unit) option) example_draw [0..<10] 0)
     = fst (SplitRandom (Ratio (7/10)) (None :: (nat \<Rightarrow> unit) option) counting_draw [0..<10] (0, 0))"
    by (rule conjunct1)
  with example_splits_0
  have c: "fst (SplitRandom (Ratio (7/10)) (None :: (nat \<Rightarrow> unit) option) counting_draw [0..<10] (0, 0))
     = Inr [[0, 4, 3, 9, 7, 5, 6], [2, 1, 8]]"
    by simp
  from h e c show ?thesis
    by blast
qed

lemma group_by_together:
  "x \<in> set xs \<Longrightarrow> y \<in> set xs \<Longrightarrow> key x = key y \<Longrightarrow>
   \<exists>grp\<in>set (group_by key xs). x \<in> set grp \<and> y \<in> set grp"
proof (induction key xs rule: group_by.induct)
  case (1 key)
  then show ?case by simp
next
  case (2 key a xs)
  show ?case
  proof (cases "key x = key a")
    case True
    with "2.prems" have "x \<in> set (a # filter (\<lambda>y. key y = key a) xs)
        \<and> y \<in> set (a # filter (\<lambda>y. key y = key a) xs)"
      by auto
    moreover have "a # filter (\<lambda>y. key y = key a) xs \<in> set (group_by key (a # xs))"
      by simp
    ultimately show ?thesis
      by blast
  next
    case False
    with "2.prems" have "x \<in> set (filter (\<lambda>y. key y \<noteq> key a) xs)"
      and "y \<in> set (filter (\<lambda>y. key y \<noteq> key a) xs)"
      by auto
    from "2.IH" [OF this "2.prems"(3)] show ?thesis
      by auto
  qed
qed

lemma group_by_mset: "mset (concat (group_by key xs)) = mset xs"
proof (induction key xs rule: group_by.induct)
  case (1 key)
  show ?case by simp
next
  case (2 key a xs)
  have "mset xs = filter_mset (\<lambda>y. key y = key a) (mset xs)
      + filter_mset (\<lambda>y. \<not> key y = key a) (mset xs)"
    by (rule multiset_partition)
  with "2.IH" show ?case
    by simp
qed

lemma take_groups_keeps:
  "take_groups n groups = (split, rest) \<Longrightarrow> grp \<in> set groups \<Longrightarrow>
   set grp \<subseteq> set split \<or> grp \<in> set rest"
proof (induction groups arbitrary: n split rest)
  case Nil
  then show ?case by simp
next
  case (Cons a groups)
  show ?case
  proof (cases "n = 0")
    case True
    with Cons.prems show ?thesis by auto
  next
    case False
    obtain s r where t: "take_groups (n - length a) groups = (s, r)"
      by (cases "take_groups (n - length a) groups")
    with Cons.prems False have split: "split = a @ s" and rest: "rest = r"
      by simp_all
    show ?thesis
    proof (cases "grp = a")
      case True
      with split show ?thesis by auto
    next
      case False
      with Cons.prems(2) have "grp \<in> set groups"
        by simp
      from Cons.IH [OF t this] split rest show ?thesis
        by auto
    qed
  qed
qed

lemma fill_buckets_keeps:
  "ns \<noteq> [] \<Longrightarrow> grp \<in> set groups \<Longrightarrow> \<exists>p\<in>set (fill_buckets ns groups). set grp \<subseteq> set p"
proof (induction ns groups rule: fill_buckets.induct)
  case (1 groups)
  then show ?case by simp
next
  case (2 n groups)
  then show ?case by auto
next
  case (3 n m ms groups)
  obtain s r where t: "take_groups n groups = (s, r)"
    by (cases "take_groups n groups")
  from take_groups_keeps [OF t "3.prems"(2)] show ?case
  proof
    assume "set grp \<subseteq> set s"
    with t show ?thesis by simp
  next
    assume "grp \<in> set r"
    from "3.IH" [OF t [symmetric] _ this] t show ?thesis
      by auto
  qed
qed

text \<open>
  Claim C8. With a constraint, every two input elements to which the constraint gives
  the same value are in one partition of the split, and the partitions together hold
  exactly the input elements.
\<close>

theorem SplitRandom_constraint:
  assumes valid: "ratios_of ratio = Inr rs"
    and x: "x \<in> set samples" and y: "y \<in> set samples" and same: "key x = key y"
  shows "\<exists>parts g'.
     SplitRandom ratio (Some key) draw samples g = (Inr parts, g') \<and>
     mset (concat parts) = mset samples \<and>
     (\<exists>p\<in>set parts. x \<in> set p \<and> y \<in> set p)"
proof -
  let ?ns = "map (bucket_size (length samples)) rs"
  let ?sh = "fst (shuffle draw (group_by key samples) g)"
  let ?parts = "fill_buckets ?ns ?sh"
  from ratios_of_valid [OF valid] have ne: "?ns \<noteq> []"
    by simp
  have run: "SplitRandom ratio (Some key) draw samples g
      = (Inr ?parts, snd (shuffle draw (group_by key samples) g))"
    using valid by (simp add: SplitRandom_def Let_def split: prod.splits)
  have "concat ?parts = concat ?sh"
    using ne by (rule fill_buckets_concat)
  moreover have "mset (concat ?sh) = mset (concat (group_by key samples))"
    by (rule mset_concat_cong) (rule shuffle_mset)
  ultimately have perm: "mset (concat ?parts) = mset samples"
    by (simp add: group_by_mset)
  from group_by_together [OF x y same]
  obtain grp where grp: "grp \<in> set (group_by key samples)" "x \<in> set grp" "y \<in> set grp"
    by blast
  from grp(1) have "grp \<in> set ?sh"
    by (simp add: shuffle_set)
  from fill_buckets_keeps [OF ne this] obtain p where "p \<in> set ?parts" "set grp \<subseteq> set p"
    by blast
  with grp(2,3) have together: "\<exists>p\<in>set ?parts. x \<in> set p \<and> y \<in> set p"
    by blast
  from run perm together show ?thesis
    by blast
qed

theorem SplitRandom_constraint_witness:
  "ratios_of (Ratio (1/2)) = Inr [1/2, 1/2] \<and>
   (1, 10) \<in> set [(1::nat, 10::nat), (2, 20), (1, 11), (2, 21)] \<and>
   (1, 11) \<in> set [(1::nat, 10::nat), (2, 20), (1, 11), (2, 21)] \<and>
   fst (1::nat, 10::nat) = fst (1::nat, 11::nat) \<and>
   (\<exists>parts g'.
      SplitRandom (Ratio (1/2)) (Some fst) example_draw
        [(1::nat, 10::nat), (2, 20), (1, 11), (2, 21)] 0 = (Inr parts, g') \<and>
      (\<exists>p\<in>set parts. (1, 10) \<in> set p \<and> (1, 11) \<in> set p))"
proof -
  have h1: "ratios_of (Ratio (1/2)) = Inr [1/2, 1/2]"
    by simp
  have h2: "(1, 10) \<in> set [(1::nat, 10::nat), (2, 20), (1, 11), (2, 21)]"
    by simp
  have h3: "(1, 11) \<in> set [(1::nat, 10::nat), (2, 20), (1, 11), (2, 21)]"
    by simp
  have h4: "fst (1::nat, 10::nat) = fst (1::nat, 11::nat)"
    by simp
  from SplitRandom_constraint [OF h1 h2 h3 h4, of example_draw 0]
  have c: "\<exists>parts g'.
      SplitRandom (Ratio (1/2)) (Some fst) example_draw
        [(1::nat, 10::nat), (2, 20), (1, 11), (2, 21)] 0 = (Inr parts, g') \<and>
      (\<exists>p\<in>set parts. (1, 10) \<in> set p \<and> (1, 11) \<in> set p)"
    by blast
  from h1 h2 h3 h4 c show ?thesis
    by blast
qed

end
